theory Spec2Isabelle
  imports Main
begin

section \<open>Users of the identity provider and of 3scale\<close>

text \<open>
  The fields of \<^verbatim>\<open>keycloak.KeycloakAPIUser\<close> and of the 3scale client's
  \<^verbatim>\<open>User\<close> that the reconciler reads. The Go slice \<^verbatim>\<open>[]*User\<close> is a list of
  users: the pointers the 3scale client decodes are taken to be non-nil.
\<close>

record KeycloakAPIUser =
  UserName :: string
  Email :: string

record UserDetails =
  Id :: int
  Role :: string
  Username :: string

record User =
  UserDetails :: UserDetails

text \<open>
  \<^verbatim>\<open>strings.EqualFold\<close> belongs to the Go standard library (equality under Unicode
  case folding). It is a parameter \<open>EqualFold\<close> of every function that calls it, so
  that nothing proved below depends on how case folding is computed.
\<close>

type_synonym equalFold = "string \<Rightarrow> string \<Rightarrow> bool"

subsection \<open>getUserDiff and its helpers\<close>

fun kcContainsTs :: "equalFold \<Rightarrow> KeycloakAPIUser list \<Rightarrow> User \<Rightarrow> bool" where
  "kcContainsTs EqualFold [] tsUser = False"
| "kcContainsTs EqualFold (kcu # kcUsers) tsUser =
     (if EqualFold (UserName kcu) (Username (UserDetails tsUser)) then True
      else kcContainsTs EqualFold kcUsers tsUser)"

fun tsContainsKc :: "equalFold \<Rightarrow> User list \<Rightarrow> KeycloakAPIUser \<Rightarrow> bool" where
  "tsContainsKc EqualFold [] kcUser = False"
| "tsContainsKc EqualFold (tsu # tsusers) kcUser =
     (if EqualFold (Username (UserDetails tsu)) (UserName kcUser) then True
      else tsContainsKc EqualFold tsusers kcUser)"

text \<open>The two loops of \<^verbatim>\<open>getUserDiff\<close>; the last argument is the slice being appended to.\<close>

fun getUserDiff_added ::
  "equalFold \<Rightarrow> User list \<Rightarrow> KeycloakAPIUser list \<Rightarrow> KeycloakAPIUser list \<Rightarrow> KeycloakAPIUser list"
where
  "getUserDiff_added EqualFold tsUsers [] added = added"
| "getUserDiff_added EqualFold tsUsers (kcUser # kcUsers) added =
     getUserDiff_added EqualFold tsUsers kcUsers
       (if \<not> tsContainsKc EqualFold tsUsers kcUser then added @ [kcUser] else added)"

fun getUserDiff_deleted ::
  "equalFold \<Rightarrow> KeycloakAPIUser list \<Rightarrow> User list \<Rightarrow> User list \<Rightarrow> User list"
where
  "getUserDiff_deleted EqualFold kcUsers [] deleted = deleted"
| "getUserDiff_deleted EqualFold kcUsers (tsUser # tsUsers) deleted =
     getUserDiff_deleted EqualFold kcUsers tsUsers
       (if \<not> kcContainsTs EqualFold kcUsers tsUser then deleted @ [tsUser] else deleted)"

definition getUserDiff ::
  "equalFold \<Rightarrow> KeycloakAPIUser list \<Rightarrow> User list \<Rightarrow> KeycloakAPIUser list \<times> User list"
where
  "getUserDiff EqualFold kcUsers tsUsers =
     (getUserDiff_added EqualFold tsUsers kcUsers [],
      getUserDiff_deleted EqualFold kcUsers tsUsers [])"

text \<open>
  The difference as the specification words it: the keycloak users matched by no 3scale
  user, and the 3scale users matched by no keycloak user, each in input order.
\<close>

definition userDiff_spec ::
  "equalFold \<Rightarrow> KeycloakAPIUser list \<Rightarrow> User list \<Rightarrow> KeycloakAPIUser list \<times> User list"
where
  "userDiff_spec EqualFold kcUsers tsUsers =
     (filter (\<lambda>k. \<not> (\<exists>t \<in> set tsUsers. EqualFold (Username (UserDetails t)) (UserName k))) kcUsers,
      filter (\<lambda>t. \<not> (\<exists>k \<in> set kcUsers. EqualFold (UserName k) (Username (UserDetails t)))) tsUsers)"

section \<open>Phases, errors and the state of a reconciliation pass\<close>

text \<open>
  Modelled from the spec: the declaration of \<^verbatim>\<open>StatusPhase\<close> is in the package of API
  types, which is not among the sources. Section 3 of the specification gives the
  enumeration; the four phases the reconcilers name keep their Go names.
\<close>

datatype StatusPhase =
  PhaseInitial | PhaseInProgress | PhaseAwaitingComponents | PhaseCompleted | PhaseFailed

text \<open>
  A Go \<^verbatim>\<open>error\<close>. \<open>NotFound\<close> and \<open>Conflict\<close> are the API errors that
  \<^verbatim>\<open>k8serr.IsNotFound\<close> and \<^verbatim>\<open>k8serr.IsConflict\<close> recognise; \<open>Wrapped m e\<close> is
  \<^verbatim>\<open>fmt.Errorf(m + "%w", e)\<close>. A nil error is \<open>None\<close>.
\<close>

datatype error = Error string | NotFound string | Conflict string | Wrapped string error

fun Error_string :: "error \<Rightarrow> string" where
  "Error_string (Error m) = m"
| "Error_string (NotFound m) = m"
| "Error_string (Conflict m) = m"
| "Error_string (Wrapped m e) = m @ Error_string e"

fun IsNotFound :: "error \<Rightarrow> bool" where
  "IsNotFound (NotFound m) = True"
| "IsNotFound e = False"

fun IsConflict :: "error \<Rightarrow> bool" where
  "IsConflict (Conflict m) = True"
| "IsConflict e = False"

type_synonym result = "StatusPhase \<times> error option"

text \<open>The test after every step: \<^verbatim>\<open>err != nil || phase != PhaseCompleted\<close>.\<close>

definition halts :: "result \<Rightarrow> bool" where
  "halts r = (snd r \<noteq> None \<or> fst r \<noteq> PhaseCompleted)"

text \<open>
  The product configuration \<^verbatim>\<open>r.Config\<close> (read through its getters), the product
  status the caller hands to \<^verbatim>\<open>Reconcile\<close>, and a route.
\<close>

record config =
  GetHost :: string
  GetProductVersion :: string
  GetOperatorVersion :: string

record RHMIProductStatus =
  Host :: string
  Version :: string
  OperatorVersion :: string

record Route =
  SpecHost :: string

text \<open>
  The functions that the two \<^verbatim>\<open>Reconcile\<close> entry points call, one constructor per call
  site. Within one pass every call site is reached at most once.
\<close>

datatype callee =
    Call_ReconcileFinalizer
  | Call_RemoveNamespace_product
  | Call_RemoveNamespace_operator
  | Call_RemoveOauthClient
  | Call_deleteConsoleLink
  | Call_ReconcileNamespace_operator
  | Call_ReconcileNamespace_product
  | Call_restoreSystemSecrets
  | Call_CopyPullSecretToNameSpace
  | Call_reconcileSubscription
  | Call_reconcileSMTPCredentials
  | Call_reconcileExternalDatasources
  | Call_reconcileBlobStorage
  | Call_reconcileSecrets
  | Call_reconcileComponents
  | Call_reconcileHost
  | Call_reconcileRHSSOIntegration
  | Call_reconcileBlackboxTargets
  | Call_reconcileOpenshiftUsers
  | Call_getOauthClientSecret
  | Call_getThreescaleRoute
  | Call_ReconcileOauthClient
  | Call_reconcileServiceDiscovery
  | Call_backupSystemSecrets
  | Call_reconcileRouteEditRole
  | Call_ReconcileAlerts
  | Call_reconcileConsoleLink

text \<open>
  What the cluster and the callees answer during one pass. \<open>returns\<close> is the phase and
  error of a callee that returns both, \<open>errorOf\<close> the error of one that returns an error
  only, \<open>configAfter\<close> what a callee does to \<^verbatim>\<open>r.Config\<close>, \<open>writes\<close> the configurations it
  hands to \<^verbatim>\<open>ConfigManager.WriteConfig\<close>, in order. \<^verbatim>\<open>ReconcileFinalizer\<close> is declared
  outside the sources: \<open>finalizerRuns\<close> says whether it invokes the function it is handed,
  \<open>finalizerReturns\<close> what it returns, given what that function returned when invoked.
  \<open>oauthClientSecret\<close>, \<open>labelsParse\<close> and \<open>listRoutes\<close> are the answers to the calls made by
  lines 255 and 261 of the 3scale \<^verbatim>\<open>Reconcile\<close>.
\<close>

record env =
  returns :: "callee \<Rightarrow> result"
  errorOf :: "callee \<Rightarrow> error option"
  configAfter :: "callee \<Rightarrow> config \<Rightarrow> config"
  writes :: "callee \<Rightarrow> config \<Rightarrow> config list"
  finalizerRuns :: bool
  finalizerReturns :: "result option \<Rightarrow> result"
  GetDeletionTimestamp :: "nat option"
  oauthClientSecret :: "error + string"
  labelsParse :: "error option"
  listRoutes :: "error + Route list"

text \<open>
  The state of a pass: the configuration in memory, the configurations handed to
  \<^verbatim>\<open>ConfigManager.WriteConfig\<close> so far, and the callees that have returned, in order.
\<close>

record pass =
  Config :: config
  written :: "config list"
  calls :: "callee list"

definition start :: "config \<Rightarrow> pass" where
  "start cfg = \<lparr>Config = cfg, written = [], calls = []\<rparr>"

definition call :: "env \<Rightarrow> callee \<Rightarrow> pass \<Rightarrow> pass" where
  "call e c s =
     s\<lparr>Config := configAfter e c (Config s),
       written := written s @ writes e c (Config s),
       calls := calls s @ [c]\<rparr>"

definition WriteConfig :: "pass \<Rightarrow> pass" where
  "WriteConfig s = s\<lparr>written := written s @ [Config s]\<rparr>"

text \<open>
  The state of a pass in which the callees \<open>cs\<close> have returned in that order and nothing
  else has touched the configuration.
\<close>

definition replay :: "env \<Rightarrow> callee list \<Rightarrow> config \<Rightarrow> pass" where
  "replay e cs cfg = fold (call e) cs (start cfg)"

definition ReconcileFinalizer ::
  "env \<Rightarrow> (pass \<Rightarrow> result \<times> pass) \<Rightarrow> pass \<Rightarrow> result \<times> pass"
where
  "ReconcileFinalizer e finalFunc s =
     (if finalizerRuns e
      then (case finalFunc s of
              (r, s) \<Rightarrow> (finalizerReturns e (Some r), call e Call_ReconcileFinalizer s))
      else (finalizerReturns e None, call e Call_ReconcileFinalizer s))"

section \<open>The Grafana reconciler\<close>

text \<open>The function literal handed to \<^verbatim>\<open>ReconcileFinalizer\<close> (lines 95 to 107).\<close>

definition finalFunc_grafana :: "env \<Rightarrow> pass \<Rightarrow> result \<times> pass" where
  "finalFunc_grafana e s =
     (let s = call e Call_RemoveNamespace_product s;
          r = returns e Call_RemoveNamespace_product in
      if halts r then (r, s) else
      let s = call e Call_RemoveNamespace_operator s;
          r = returns e Call_RemoveNamespace_operator in
      if halts r then (r, s) else
      ((PhaseCompleted, None), s))"

text \<open>
  Lines 143 to 146: the product version is stored when it is not the expected one.
  \<open>version\<close> is the constant \<^verbatim>\<open>VersionGrafana\<close> (or \<^verbatim>\<open>Version3Scale\<close>), declared outside
  the sources.
\<close>

definition reconcileProductVersion :: "string \<Rightarrow> pass \<Rightarrow> pass" where
  "reconcileProductVersion version s =
     (if GetProductVersion (Config s) \<noteq> version
      then WriteConfig (s\<lparr>Config := (Config s)\<lparr>GetProductVersion := version\<rparr>\<rparr>)
      else s)"

definition writeProduct :: "pass \<Rightarrow> RHMIProductStatus \<Rightarrow> RHMIProductStatus" where
  "writeProduct s product =
     product\<lparr>Host := GetHost (Config s),
             Version := GetProductVersion (Config s),
             OperatorVersion := GetOperatorVersion (Config s)\<rparr>"

definition Reconcile_grafana ::
  "env \<Rightarrow> string \<Rightarrow> config \<Rightarrow> RHMIProductStatus \<Rightarrow> result \<times> pass \<times> RHMIProductStatus"
where
  "Reconcile_grafana e VersionGrafana cfg product =
     (let s = start cfg in
      case ReconcileFinalizer e (finalFunc_grafana e) s of (r, s) \<Rightarrow>
      if halts r then (r, s, product) else
      let s = call e Call_ReconcileNamespace_operator s;
          r = returns e Call_ReconcileNamespace_operator in
      if halts r then (r, s, product) else
      let s = call e Call_reconcileSecrets s;
          r = returns e Call_reconcileSecrets in
      if halts r then (r, s, product) else
      let s = call e Call_reconcileSubscription s;
          r = returns e Call_reconcileSubscription in
      if halts r then (r, s, product) else
      let s = call e Call_reconcileComponents s;
          r = returns e Call_reconcileComponents in
      if halts r then (r, s, product) else
      let s = call e Call_reconcileHost s;
          r = returns e Call_reconcileHost in
      if halts r then (r, s, product) else
      let s = reconcileProductVersion VersionGrafana s in
      ((PhaseCompleted, None), s, writeProduct s product))"

section \<open>The 3scale reconciler\<close>

text \<open>The function literal handed to \<^verbatim>\<open>ReconcileFinalizer\<close> (lines 151 to 173).\<close>

definition finalFunc_threescale :: "env \<Rightarrow> pass \<Rightarrow> result \<times> pass" where
  "finalFunc_threescale e s =
     (let s = call e Call_RemoveNamespace_product s;
          r = returns e Call_RemoveNamespace_product in
      if halts r then (r, s) else
      let s = call e Call_RemoveNamespace_operator s;
          r = returns e Call_RemoveNamespace_operator in
      if halts r then (r, s) else
      let s = call e Call_RemoveOauthClient s in
      case errorOf e Call_RemoveOauthClient of
        Some err \<Rightarrow> ((PhaseFailed, Some err), s)
      | None \<Rightarrow>
      let s = call e Call_deleteConsoleLink s;
          r = returns e Call_deleteConsoleLink in
      if halts r then (r, s) else
      ((PhaseCompleted, None), s))"

text \<open>
  \<^verbatim>\<open>getThreescaleRoute\<close>: \<open>parsed\<close> is the error of \<^verbatim>\<open>labels.Parse\<close>, \<open>listed\<close> the answer of
  \<^verbatim>\<open>serverClient.List\<close>. A nil filter accepts every route.
\<close>

fun firstRoute :: "(Route \<Rightarrow> bool) \<Rightarrow> Route list \<Rightarrow> Route option" where
  "firstRoute filterFn [] = None"
| "firstRoute filterFn (route # items) =
     (if filterFn route then Some route else firstRoute filterFn items)"

definition getThreescaleRoute ::
  "error option \<Rightarrow> error + Route list \<Rightarrow> (Route \<Rightarrow> bool) option \<Rightarrow> Route option \<times> error option"
where
  "getThreescaleRoute parsed listed filterFn =
     (let filterFn = (case filterFn of None \<Rightarrow> (\<lambda>r. True) | Some f \<Rightarrow> f) in
      case parsed of
        Some err \<Rightarrow> (None, Some err)
      | None \<Rightarrow>
      (case listed of
        Inl err \<Rightarrow> (None, Some err)
      | Inr items \<Rightarrow>
          if length items = 0 then (None, None)
          else (firstRoute filterFn items, None)))"

definition Reconcile_threescale ::
  "env \<Rightarrow> config \<Rightarrow> RHMIProductStatus \<Rightarrow> result \<times> pass \<times> RHMIProductStatus"
where
  "Reconcile_threescale e cfg product =
     (let s = start cfg in
      case ReconcileFinalizer e (finalFunc_threescale e) s of (r, s) \<Rightarrow>
      if halts r then (r, s, product) else
      let s = call e Call_ReconcileNamespace_operator s;
          r = returns e Call_ReconcileNamespace_operator in
      if halts r then (r, s, product) else
      let s = call e Call_ReconcileNamespace_product s;
          r = returns e Call_ReconcileNamespace_product in
      if halts r then (r, s, product) else
      let s = call e Call_restoreSystemSecrets s;
          r = returns e Call_restoreSystemSecrets in
      if halts r then (r, s, product) else
      let s = call e Call_CopyPullSecretToNameSpace s in
     (case errorOf e Call_CopyPullSecretToNameSpace of
        Some err \<Rightarrow> ((PhaseFailed, Some err), s, product)
      | None \<Rightarrow>
     (let s = call e Call_reconcileSubscription s;
          r = returns e Call_reconcileSubscription in
      if halts r then (r, s, product) else
      case (if GetDeletionTimestamp e = None then
              let s = call e Call_reconcileSMTPCredentials s;
                  r = returns e Call_reconcileSMTPCredentials in
              if halts r then (Some r, s) else
              let s = call e Call_reconcileExternalDatasources s;
                  r = returns e Call_reconcileExternalDatasources in
              if halts r then (Some r, s) else
              let s = call e Call_reconcileBlobStorage s;
                  r = returns e Call_reconcileBlobStorage in
              if halts r then (Some r, s) else (None, s)
            else (None, s)) of
        (Some r, s) \<Rightarrow> (r, s, product)
      | (None, s) \<Rightarrow>
     (let s = call e Call_reconcileComponents s;
          r = returns e Call_reconcileComponents in
      if halts r then (r, s, product) else
      let s = call e Call_reconcileRHSSOIntegration s;
          r = returns e Call_reconcileRHSSOIntegration in
      if halts r then (r, s, product) else
      let s = call e Call_reconcileBlackboxTargets s;
          r = returns e Call_reconcileBlackboxTargets in
      if halts r then (r, s, product) else
      let s = call e Call_reconcileOpenshiftUsers s;
          r = returns e Call_reconcileOpenshiftUsers in
      if halts r then (r, s, product) else
      let s = call e Call_getOauthClientSecret s in
      case oauthClientSecret e of
        Inl err \<Rightarrow> ((PhaseFailed, Some err), s, product)
      | Inr clientSecret \<Rightarrow>
     (let s = call e Call_getThreescaleRoute s in
      case getThreescaleRoute (labelsParse e) (listRoutes e) None of
        (threescaleMasterRoute, err) \<Rightarrow>
      if err \<noteq> None \<or> threescaleMasterRoute = None then ((PhaseFailed, err), s, product) else
      let s = call e Call_ReconcileOauthClient s;
          r = returns e Call_ReconcileOauthClient in
      if halts r then (r, s, product) else
      let s = call e Call_reconcileServiceDiscovery s;
          r = returns e Call_reconcileServiceDiscovery in
      if halts r then (r, s, product) else
      let s = call e Call_backupSystemSecrets s;
          r = returns e Call_backupSystemSecrets in
      if halts r then (r, s, product) else
      let s = call e Call_reconcileRouteEditRole s;
          r = returns e Call_reconcileRouteEditRole in
      if halts r then (r, s, product) else
      let s = call e Call_ReconcileAlerts s;
          r = returns e Call_ReconcileAlerts in
      if halts r then (r, s, product) else
      let s = call e Call_reconcileConsoleLink s;
          r = returns e Call_reconcileConsoleLink in
      if halts r then (r, s, product) else
      ((PhaseCompleted, None), s, writeProduct s product))))))"

text \<open>
  The steps of the two entry points in source order: the callees that return a phase and
  an error and whose result \<^verbatim>\<open>Reconcile\<close> tests, after \<^verbatim>\<open>ReconcileFinalizer\<close>. The steps of
  the function literals handed to \<^verbatim>\<open>ReconcileFinalizer\<close> are the teardown steps.
\<close>

definition grafana_steps :: "callee list" where
  "grafana_steps =
     [Call_ReconcileNamespace_operator, Call_reconcileSecrets, Call_reconcileSubscription,
      Call_reconcileComponents, Call_reconcileHost]"

definition threescale_steps :: "callee list" where
  "threescale_steps =
     [Call_ReconcileNamespace_operator, Call_ReconcileNamespace_product,
      Call_restoreSystemSecrets, Call_reconcileSubscription, Call_reconcileSMTPCredentials,
      Call_reconcileExternalDatasources, Call_reconcileBlobStorage, Call_reconcileComponents,
      Call_reconcileRHSSOIntegration, Call_reconcileBlackboxTargets,
      Call_reconcileOpenshiftUsers, Call_ReconcileOauthClient, Call_reconcileServiceDiscovery,
      Call_backupSystemSecrets, Call_reconcileRouteEditRole, Call_ReconcileAlerts,
      Call_reconcileConsoleLink]"

text \<open>
  The three steps inside the test \<^verbatim>\<open>r.installation.GetDeletionTimestamp() == nil\<close> of line 209
  of the 3scale \<^verbatim>\<open>Reconcile\<close> are not reached when the installation carries a deletion marker.
\<close>

definition guarded :: "env \<Rightarrow> callee \<Rightarrow> bool" where
  "guarded e c =
     (GetDeletionTimestamp e \<noteq> None \<and>
      c \<in> set [Call_reconcileSMTPCredentials, Call_reconcileExternalDatasources,
                Call_reconcileBlobStorage])"

definition teardown_steps :: "callee list" where
  "teardown_steps =
     [Call_RemoveNamespace_product, Call_RemoveNamespace_operator, Call_RemoveOauthClient,
      Call_deleteConsoleLink]"

section \<open>The phase sequencer of the specification\<close>

text \<open>
  Section 4.2 of the specification: given an ordered list of steps, execute each in
  order; after each step, if the error is non-nil or the phase is not Completed, stop and
  return that pair without executing the following steps; if all steps return Completed,
  return (Completed, nil). \<open>reported e c\<close> is the pair a call stands for in this reading:
  the pair the callee returns, and for the calls of \<^verbatim>\<open>Reconcile\<close> that return no phase the
  pair \<^verbatim>\<open>Reconcile\<close> returns when it stops after them.
\<close>

definition reported :: "env \<Rightarrow> callee \<Rightarrow> result" where
  "reported e c =
     (if c = Call_RemoveOauthClient \<or> c = Call_CopyPullSecretToNameSpace then
        (case errorOf e c of
           Some err \<Rightarrow> (PhaseFailed, Some err)
         | None \<Rightarrow> (PhaseCompleted, None))
      else if c = Call_getOauthClientSecret then
        (case oauthClientSecret e of
           Inl err \<Rightarrow> (PhaseFailed, Some err)
         | Inr clientSecret \<Rightarrow> (PhaseCompleted, None))
      else if c = Call_getThreescaleRoute then
        (case getThreescaleRoute (labelsParse e) (listRoutes e) None of
           (threescaleMasterRoute, err) \<Rightarrow>
             if err \<noteq> None \<or> threescaleMasterRoute = None then (PhaseFailed, err)
             else (PhaseCompleted, None))
      else returns e c)"

fun PhaseSequencer :: "env \<Rightarrow> callee list \<Rightarrow> pass \<Rightarrow> result \<times> pass" where
  "PhaseSequencer e [] s = ((PhaseCompleted, None), s)"
| "PhaseSequencer e (c # cs) s =
     (let s = call e c s; r = reported e c in
      if halts r then (r, s) else PhaseSequencer e cs s)"

text \<open>The calls of the 3scale \<^verbatim>\<open>Reconcile\<close> after \<^verbatim>\<open>ReconcileFinalizer\<close>, in source order.\<close>

definition threescale_calls :: "env \<Rightarrow> callee list" where
  "threescale_calls e =
     [Call_ReconcileNamespace_operator, Call_ReconcileNamespace_product,
      Call_restoreSystemSecrets, Call_CopyPullSecretToNameSpace, Call_reconcileSubscription] @
     (if GetDeletionTimestamp e = None
      then [Call_reconcileSMTPCredentials, Call_reconcileExternalDatasources,
            Call_reconcileBlobStorage]
      else []) @
     [Call_reconcileComponents, Call_reconcileRHSSOIntegration, Call_reconcileBlackboxTargets,
      Call_reconcileOpenshiftUsers, Call_getOauthClientSecret, Call_getThreescaleRoute,
      Call_ReconcileOauthClient, Call_reconcileServiceDiscovery, Call_backupSystemSecrets,
      Call_reconcileRouteEditRole, Call_ReconcileAlerts, Call_reconcileConsoleLink]"

section \<open>The finalizer handler of the specification\<close>


section \<open>Secrets, events and the steps of the reconcilers\<close>

text \<open>
  A Kubernetes secret as far as the reconcilers touch it. A missing key and a nil value
  both read as the empty string through \<^verbatim>\<open>string(secret.Data[key])\<close>.
\<close>

record Secret =
  Annotations :: "string \<rightharpoonup> string"
  Data :: "string \<rightharpoonup> string"

definition stringOf :: "string option \<Rightarrow> string" where
  "stringOf v = (case v of None \<Rightarrow> [] | Some bytes \<Rightarrow> bytes)"

definition emptySecret :: Secret where
  "emptySecret = \<lparr>Annotations = Map.empty, Data = Map.empty\<rparr>"

text \<open>
  The calls whose order and arguments the properties below are about: the rollout of a
  deployment config, the writes of a secret, and the user calls of the 3scale client
  (the access token, which every user call carries, is left out).
\<close>

datatype event =
    Instantiate string
  | Create Secret
  | Update Secret
  | AddUser string string
  | DeleteUser int
  | SetUserAsAdmin int

text \<open>
  \<^verbatim>\<open>RolloutDeployment\<close>: \<open>instantiate\<close> is the error the API server answers with.
\<close>

definition RolloutDeployment ::
  "(string \<Rightarrow> error option) \<Rightarrow> string \<Rightarrow> event list \<Rightarrow> error option \<times> event list"
where
  "RolloutDeployment instantiate name events = (instantiate name, events @ [Instantiate name])"

subsection \<open>The host of Grafana and the versions\<close>

text \<open>
  \<^verbatim>\<open>reconcileHost\<close> of the Grafana reconciler: \<open>got\<close> is the answer of \<^verbatim>\<open>serverClient.Get\<close> for
  the route, \<open>stored\<close> the error of \<^verbatim>\<open>ConfigManager.WriteConfig\<close>.
\<close>

definition reconcileHost :: "error + Route \<Rightarrow> error option \<Rightarrow> pass \<Rightarrow> result \<times> pass" where
  "reconcileHost got stored s =
     (case got of
        Inl err \<Rightarrow> ((PhaseFailed, Some (Wrapped ''Failed to get route for Grafana: '' err)), s)
      | Inr grafanaRoute \<Rightarrow>
          (let s = WriteConfig
                     (s\<lparr>Config := (Config s)\<lparr>GetHost := ''https://'' @ SpecHost grafanaRoute\<rparr>\<rparr>)
           in case stored of
                Some err \<Rightarrow> ((PhaseFailed, Some (Wrapped ''Could not set Grafana route: '' err)), s)
              | None \<Rightarrow> ((PhaseCompleted, None), s)))"

text \<open>Lines 1070 to 1073 of \<^verbatim>\<open>reconcileServiceDiscovery\<close>.\<close>

definition reconcileOperatorVersion :: "string \<Rightarrow> pass \<Rightarrow> pass" where
  "reconcileOperatorVersion version s =
     (if GetOperatorVersion (Config s) \<noteq> version
      then WriteConfig (s\<lparr>Config := (Config s)\<lparr>GetOperatorVersion := version\<rparr>\<rparr>)
      else s)"

datatype OperationResult =
  OperationResultNone | OperationResultCreated | OperationResultUpdated

text \<open>
  \<^verbatim>\<open>reconcileServiceDiscovery\<close>. \<open>Version3Scale\<close> and \<open>OperatorVersion3Scale\<close> are the constants
  of that name, declared outside the sources. \<open>createdOrUpdated\<close> is what
  \<^verbatim>\<open>controllerutil.CreateOrUpdate\<close> returns for the config map \<^verbatim>\<open>system\<close>: the callback
  handed to it only reads the OAuth client secret and fills in the object.
\<close>

definition reconcileServiceDiscovery ::
  "string \<Rightarrow> string \<Rightarrow> OperationResult \<times> error option \<Rightarrow> (string \<Rightarrow> error option) \<Rightarrow>
     pass \<Rightarrow> result \<times> pass \<times> event list"
where
  "reconcileServiceDiscovery Version3Scale OperatorVersion3Scale createdOrUpdated instantiate s =
     (let s = reconcileProductVersion Version3Scale s;
          s = reconcileOperatorVersion OperatorVersion3Scale s in
      case createdOrUpdated of
        (status, Some err) \<Rightarrow> ((PhaseInProgress, Some err), s, [])
      | (status, None) \<Rightarrow>
          if status \<noteq> OperationResultNone then
            (case RolloutDeployment instantiate ''system-app'' [] of
               (Some err, events) \<Rightarrow> ((PhaseInProgress, Some err), s, events)
             | (None, events) \<Rightarrow>
                 (case RolloutDeployment instantiate ''system-sidekiq'' events of
                    (Some err, events) \<Rightarrow> ((PhaseInProgress, Some err), s, events)
                  | (None, events) \<Rightarrow> ((PhaseCompleted, None), s, events)))
          else ((PhaseCompleted, None), s, []))"

subsection \<open>Cloud resources\<close>

text \<open>
  The status phase of a custom resource of the cloud resource operator, which the
  reconciler only compares with \<^verbatim>\<open>types.PhaseComplete\<close>; \<open>PhaseOther\<close> is any other value.
\<close>

datatype croStatusPhase = PhaseComplete | PhaseOther string

record CloudResource =
  Status_Phase :: croStatusPhase
  Status_SecretRef :: "string \<times> string"
  Labels :: "string \<rightharpoonup> string"

text \<open>\<^verbatim>\<open>reconcileBlobStorage\<close>: \<open>reconciled\<close> is what \<^verbatim>\<open>croUtil.ReconcileBlobStorage\<close> returns.\<close>

definition reconcileBlobStorage :: "error + CloudResource \<Rightarrow> result" where
  "reconcileBlobStorage reconciled =
     (case reconciled of
        Inl err \<Rightarrow>
          (PhaseFailed, Some (Wrapped ''failed to reconcile blob storage request: '' err))
      | Inr blobStorage \<Rightarrow>
          if Status_Phase blobStorage \<noteq> PhaseComplete then (PhaseAwaitingComponents, None)
          else (PhaseCompleted, None))"

text \<open>
  What the calls of \<^verbatim>\<open>reconcileExternalDatasources\<close> return, in the order of the source.
  The callbacks handed to \<^verbatim>\<open>controllerutil.CreateOrUpdate\<close> only fill in the connection
  secrets, so each of these calls is the error it returns.
\<close>

record datasources =
  ReconcileRedis_backend :: "error + CloudResource"
  ReconcileRedis_system :: "error + CloudResource"
  ReconcilePostgres :: "error + CloudResource"
  ReconcileRedisAlerts_backend :: result
  CreateRedisCpuUsageAlerts :: "error option"
  Get_backendCredSec :: "error + Secret"
  CreateOrUpdate_backendRedisSecret :: "error option"
  ReconcileRedisAlerts_system :: result
  Get_systemCredSec :: "error + Secret"
  CreateOrUpdate_redisSecret :: "error option"
  ReconcilePostgresAlerts :: result
  Get_postgresCredSec :: "error + Secret"
  CreateOrUpdate_postgresSecret :: "error option"

definition reconcileExternalDatasources :: "datasources \<Rightarrow> result" where
  "reconcileExternalDatasources d =
     (case ReconcileRedis_backend d of
        Inl err \<Rightarrow>
          (PhaseFailed, Some (Wrapped ''failed to reconcile backend redis request: '' err))
      | Inr backendRedis \<Rightarrow>
     (case ReconcileRedis_system d of
        Inl err \<Rightarrow>
          (PhaseFailed, Some (Wrapped ''failed to reconcile system redis request: '' err))
      | Inr systemRedis \<Rightarrow>
     (case ReconcilePostgres d of
        Inl err \<Rightarrow> (PhaseFailed, Some (Wrapped ''failed to reconcile postgres request: '' err))
      | Inr postgres \<Rightarrow>
     (case ReconcileRedisAlerts_backend d of
        (phase, Some err) \<Rightarrow>
          (PhaseFailed, Some (Wrapped ''failed to reconcile redis alerts: '' err))
      | (phase, None) \<Rightarrow>
      if phase \<noteq> PhaseCompleted then (phase, None) else
     (case CreateRedisCpuUsageAlerts d of
        Some err \<Rightarrow>
          (PhaseFailed,
           Some (Error (''failed to create backend redis prometheus Cpu usage high alerts for threescale: ''
                        @ Error_string err)))
      | None \<Rightarrow>
      if Status_Phase backendRedis \<noteq> PhaseComplete then (PhaseAwaitingComponents, None) else
     (case Get_backendCredSec d of
        Inl err \<Rightarrow>
          (PhaseFailed, Some (Wrapped ''failed to get backend redis credential secret: '' err))
      | Inr credSec \<Rightarrow>
     (case CreateOrUpdate_backendRedisSecret d of
        Some err \<Rightarrow>
          (PhaseFailed,
           Some (Wrapped ''failed to create or update 3scale backend-redis connection secret: '' err))
      | None \<Rightarrow>
     (case ReconcileRedisAlerts_system d of
        (phase, Some err) \<Rightarrow>
          (PhaseFailed, Some (Wrapped ''failed to reconcile redis alerts: '' err))
      | (phase, None) \<Rightarrow>
      if phase \<noteq> PhaseCompleted then (phase, None) else
      if Status_Phase systemRedis \<noteq> PhaseComplete then (PhaseAwaitingComponents, None) else
     (case Get_systemCredSec d of
        Inl err \<Rightarrow>
          (PhaseFailed, Some (Wrapped ''failed to get system redis credential secret: '' err))
      | Inr systemCredSec \<Rightarrow>
     (case CreateOrUpdate_redisSecret d of
        Some err \<Rightarrow>
          (PhaseFailed,
           Some (Wrapped ''failed to create or update 3scale system-redis connection secret: '' err))
      | None \<Rightarrow>
     (case ReconcilePostgresAlerts d of
        (phase, Some err) \<Rightarrow>
          (PhaseFailed,
           Some (Wrapped (''failed to reconcile postgres alerts for ''
                          @ stringOf (Labels postgres ''productName'') @ '': '') err))
      | (phase, None) \<Rightarrow>
      if phase \<noteq> PhaseCompleted then (phase, None) else
     (case Get_postgresCredSec d of
        Inl err \<Rightarrow>
          (PhaseFailed, Some (Wrapped ''failed to get postgres credential secret: '' err))
      | Inr postgresCredSec \<Rightarrow>
     (case CreateOrUpdate_postgresSecret d of
        Some err \<Rightarrow>
          (PhaseFailed,
           Some (Wrapped ''failed to create or update 3scale system-database connection secret: '' err))
      | None \<Rightarrow> (PhaseCompleted, None))))))))))))))"

subsection \<open>SMTP credentials\<close>













subsection \<open>Users\<close>

text \<open>
  What the cluster, the identity provider and the 3scale client answer to
  \<^verbatim>\<open>reconcileOpenshiftUsers\<close>. The answers of the 3scale client may depend on the calls
  made so far. A response is an error or a status code. \<open>toLower\<close> and \<open>equalFold\<close> are
  \<^verbatim>\<open>strings.ToLower\<close> and \<^verbatim>\<open>strings.EqualFold\<close>, and \<open>adminRole\<close> is the constant of that name,
  declared outside the sources.
\<close>

record users =
  ReadRHSSO :: "error option"
  Get_systemSeed_token :: "error + Secret"
  Get_systemSeed_admin :: "error + Secret"
  GetKeycloakUsers :: "error + KeycloakAPIUser list"
  GetUsers :: "event list \<Rightarrow> error + User list"
  AddUser_response :: "event list \<Rightarrow> string \<Rightarrow> string \<Rightarrow> error + int"
  DeleteUser_response :: "event list \<Rightarrow> int \<Rightarrow> error + int"
  SetUserAsAdmin_response :: "event list \<Rightarrow> int \<Rightarrow> error + int"
  CreateOrUpdate_KeycloakUser :: "KeycloakAPIUser \<Rightarrow> error option"
  Get_dedicatedAdmins :: "error + string list"
  isWorkshop :: bool
  toLower :: "string \<Rightarrow> string"
  equalFold :: equalFold
  adminRole :: string

definition GetAdminToken :: "error + Secret \<Rightarrow> error + string" where
  "GetAdminToken got =
     (case got of Inl err \<Rightarrow> Inl err
      | Inr s \<Rightarrow> Inr (stringOf (Data s ''ADMIN_ACCESS_TOKEN'')))"

definition GetAdminNameAndPassFromSecret :: "error + Secret \<Rightarrow> error + string \<times> string" where
  "GetAdminNameAndPassFromSecret got =
     (case got of Inl err \<Rightarrow> Inl err
      | Inr s \<Rightarrow> Inr (stringOf (Data s ''ADMIN_USER''), stringOf (Data s ''ADMIN_EMAIL'')))"

fun userIsOpenshiftAdmin :: "equalFold \<Rightarrow> User \<Rightarrow> string list \<Rightarrow> bool" where
  "userIsOpenshiftAdmin EqualFold tsUser [] = False"
| "userIsOpenshiftAdmin EqualFold tsUser (userName # adminGroup) =
     (if EqualFold (Username (UserDetails tsUser)) userName then True
      else userIsOpenshiftAdmin EqualFold tsUser adminGroup)"

text \<open>
  The loops of \<^verbatim>\<open>reconcileOpenshiftUsers\<close>. A loop that returns from the function yields
  the phase and error it returns with.
\<close>

fun addUsers :: "users \<Rightarrow> KeycloakAPIUser list \<Rightarrow> event list \<Rightarrow> result option \<times> event list" where
  "addUsers u [] events = (None, events)"
| "addUsers u (kcUser # added) events =
     (let res = AddUser_response u events (toLower u (UserName kcUser)) (toLower u (Email kcUser));
          events = events @ [AddUser (toLower u (UserName kcUser)) (toLower u (Email kcUser))]
      in case res of
           Inl err \<Rightarrow> (Some (PhaseInProgress, Some err), events)
         | Inr StatusCode \<Rightarrow>
             if StatusCode \<noteq> 201 then (Some (PhaseInProgress, None), events)
             else addUsers u added events)"

fun deleteUsers :: "users \<Rightarrow> string \<Rightarrow> User list \<Rightarrow> event list \<Rightarrow> result option \<times> event list" where
  "deleteUsers u systemAdminUsername [] events = (None, events)"
| "deleteUsers u systemAdminUsername (tsUser # deleted) events =
     (if Username (UserDetails tsUser) \<noteq> systemAdminUsername then
        (let res = DeleteUser_response u events (Id (UserDetails tsUser));
             events = events @ [DeleteUser (Id (UserDetails tsUser))]
         in case res of
              Inl err \<Rightarrow> (Some (PhaseInProgress, Some err), events)
            | Inr StatusCode \<Rightarrow>
                if StatusCode \<noteq> 200 then (Some (PhaseInProgress, None), events)
                else deleteUsers u systemAdminUsername deleted events)
      else deleteUsers u systemAdminUsername deleted events)"

fun updateKeycloakUsers :: "users \<Rightarrow> KeycloakAPIUser list \<Rightarrow> error option" where
  "updateKeycloakUsers u [] = None"
| "updateKeycloakUsers u (user # kcu) =
     (case CreateOrUpdate_KeycloakUser u user of
        Some err \<Rightarrow>
          Some (Wrapped ''failed to update KeycloakUser CR with 3scale_user_created attribute: '' err)
      | None \<Rightarrow> updateKeycloakUsers u kcu)"

text \<open>
  \<^verbatim>\<open>syncOpenshiftAdminMembership\<close>. It returns the error of the failed call, which is nil
  when the call only answered with another status than 200.
\<close>

fun syncOpenshiftAdminMembership ::
  "users \<Rightarrow> string list \<Rightarrow> User list \<Rightarrow> string \<Rightarrow> event list \<Rightarrow> error option \<times> event list"
where
  "syncOpenshiftAdminMembership u openshiftAdminGroup [] systemAdminUsername events =
     (None, events)"
| "syncOpenshiftAdminMembership u openshiftAdminGroup (tsUser # newTsUsers) systemAdminUsername
     events =
     (if Username (UserDetails tsUser) = systemAdminUsername
      then syncOpenshiftAdminMembership u openshiftAdminGroup newTsUsers systemAdminUsername events
      else if (userIsOpenshiftAdmin (equalFold u) tsUser openshiftAdminGroup \<or> isWorkshop u) \<and>
              Role (UserDetails tsUser) \<noteq> adminRole u
      then
        (let res = SetUserAsAdmin_response u events (Id (UserDetails tsUser));
             events = events @ [SetUserAsAdmin (Id (UserDetails tsUser))]
         in case res of
              Inl err \<Rightarrow> (Some err, events)
            | Inr StatusCode \<Rightarrow>
                if StatusCode \<noteq> 200 then (None, events)
                else syncOpenshiftAdminMembership u openshiftAdminGroup newTsUsers
                       systemAdminUsername events)
      else syncOpenshiftAdminMembership u openshiftAdminGroup newTsUsers systemAdminUsername
             events)"

definition reconcileOpenshiftUsers :: "users \<Rightarrow> result \<times> event list" where
  "reconcileOpenshiftUsers u =
     (case ReadRHSSO u of
        Some err \<Rightarrow> ((PhaseFailed, Some err), [])
      | None \<Rightarrow>
     (case GetAdminToken (Get_systemSeed_token u) of
        Inl err \<Rightarrow> ((PhaseFailed, Some err), [])
      | Inr accessToken \<Rightarrow>
     (case GetAdminNameAndPassFromSecret (Get_systemSeed_admin u) of
        Inl err \<Rightarrow> ((PhaseInProgress, Some err), [])
      | Inr (systemAdminUsername, email) \<Rightarrow>
     (case GetKeycloakUsers u of
        Inl err \<Rightarrow> ((PhaseFailed, Some err), [])
      | Inr kcu \<Rightarrow>
     (case GetUsers u [] of
        Inl err \<Rightarrow> ((PhaseInProgress, Some err), [])
      | Inr tsUsers \<Rightarrow>
     (case getUserDiff (equalFold u) kcu tsUsers of
        (added, deleted) \<Rightarrow>
     (case addUsers u added [] of
        (Some r, events) \<Rightarrow> (r, events)
      | (None, events) \<Rightarrow>
     (case deleteUsers u systemAdminUsername deleted events of
        (Some r, events) \<Rightarrow> (r, events)
      | (None, events) \<Rightarrow>
     (case updateKeycloakUsers u kcu of
        Some err \<Rightarrow> ((PhaseInProgress, Some err), events)
      | None \<Rightarrow>
     (case (case Get_dedicatedAdmins u of
              Inl err \<Rightarrow> if \<not> IsNotFound err then Inl err else Inr []
            | Inr groupUsers \<Rightarrow> Inr groupUsers) of
        Inl err \<Rightarrow> ((PhaseInProgress, Some err), events)
      | Inr openshiftAdminGroup \<Rightarrow>
     (case GetUsers u events of
        Inl err \<Rightarrow> ((PhaseInProgress, Some err), events)
      | Inr newTsUsers \<Rightarrow>
     (case syncOpenshiftAdminMembership u openshiftAdminGroup newTsUsers systemAdminUsername
             events of
        (Some err, events) \<Rightarrow> ((PhaseInProgress, Some err), events)
      | (None, events) \<Rightarrow> ((PhaseCompleted, None), events)))))))))))))"

section \<open>An environment in which every call succeeds\<close>

text \<open>
  Every callee returns Completed and no error, the installation carries no deletion
  marker, \<^verbatim>\<open>ReconcileFinalizer\<close> does not invoke the function it is handed, and one route
  is labelled for the master portal. The concrete passes below vary it.
\<close>

definition quiet :: env where
  "quiet =
     \<lparr>returns = (\<lambda>c. (PhaseCompleted, None)),
      errorOf = (\<lambda>c. None),
      configAfter = (\<lambda>c cfg. cfg),
      writes = (\<lambda>c cfg. []),
      finalizerRuns = False,
      finalizerReturns = (\<lambda>final. (PhaseCompleted, None)),
      GetDeletionTimestamp = None,
      oauthClientSecret = Inr ''secret'',
      labelsParse = None,
      listRoutes = Inr [\<lparr>SpecHost = ''master.apps.example.com''\<rparr>]\<rparr>"

definition installed :: config where
  "installed =
     \<lparr>GetHost = ''https://3scale-admin.apps.example.com'',
      GetProductVersion = ''2.8'',
      GetOperatorVersion = ''0.5.0''\<rparr>"

definition blank :: RHMIProductStatus where
  "blank = \<lparr>Host = [], Version = [], OperatorVersion = []\<rparr>"

text \<open>A Grafana pass in which the route of the dashboard cannot be read.\<close>

definition noRoute :: env where
  "noRoute = quiet\<lparr>returns := (returns quiet)(Call_reconcileHost := (PhaseFailed, Some (Error ''no route'')))\<rparr>"

text \<open>
  A Grafana pass in which the secrets cannot be reconciled, and a 3scale pass in which
  the blob storage is still being provisioned.
\<close>

definition secretsFail :: env where
  "secretsFail =
     quiet\<lparr>returns := (returns quiet)(Call_reconcileSecrets := (PhaseFailed, Some (Error ''forbidden'')))\<rparr>"

definition awaitingStorage :: env where
  "awaitingStorage =
     quiet\<lparr>returns := (returns quiet)(Call_reconcileBlobStorage := (PhaseAwaitingComponents, None))\<rparr>"

text \<open>
  A Grafana pass in which \<^verbatim>\<open>reconcileHost\<close> finds the route of the dashboard and stores its
  host.
\<close>

definition routed :: env where
  "routed =
     quiet\<lparr>configAfter := (\<lambda>c cfg. if c = Call_reconcileHost
                then cfg\<lparr>GetHost := ''https://grafana.apps.example.com''\<rparr> else cfg),
           writes := (\<lambda>c cfg. if c = Call_reconcileHost
                then [cfg\<lparr>GetHost := ''https://grafana.apps.example.com''\<rparr>] else [])\<rparr>"

text \<open>A 3scale pass in which no route is labelled for the master portal.\<close>

definition noMasterRoute :: env where
  "noMasterRoute = quiet\<lparr>listRoutes := Inr []\<rparr>"



text \<open>
  Cloud resources that are still being provisioned or ready, and three sets of answers
  to \<^verbatim>\<open>reconcileExternalDatasources\<close>: the request for the system redis fails; both redis
  instances are being provisioned; the backend redis is ready and the system redis is
  not.
\<close>

definition provisioning :: CloudResource where
  "provisioning =
     \<lparr>Status_Phase = PhaseOther ''in progress'',
      Status_SecretRef = (''threescale-backend-redis-rhmi'', ''redhat-rhmi-operator''),
      Labels = Map.empty\<rparr>"

definition systemRedisFails :: datasources where
  "systemRedisFails =
     \<lparr>ReconcileRedis_backend = Inr provisioning,
      ReconcileRedis_system = Inl (Error ''connection refused''),
      ReconcilePostgres = Inr provisioning,
      ReconcileRedisAlerts_backend = (PhaseCompleted, None),
      CreateRedisCpuUsageAlerts = None,
      Get_backendCredSec = Inr emptySecret,
      CreateOrUpdate_backendRedisSecret = None,
      ReconcileRedisAlerts_system = (PhaseCompleted, None),
      Get_systemCredSec = Inr emptySecret,
      CreateOrUpdate_redisSecret = None,
      ReconcilePostgresAlerts = (PhaseCompleted, None),
      Get_postgresCredSec = Inr emptySecret,
      CreateOrUpdate_postgresSecret = None\<rparr>"

definition backendProvisioning :: datasources where
  "backendProvisioning = systemRedisFails\<lparr>ReconcileRedis_system := Inr provisioning\<rparr>"

definition ready :: CloudResource where
  "ready = provisioning\<lparr>Status_Phase := PhaseComplete\<rparr>"

definition systemProvisioning :: datasources where
  "systemProvisioning = backendProvisioning\<lparr>ReconcileRedis_backend := Inr ready\<rparr>"

text \<open>
  A pass of \<^verbatim>\<open>reconcileOpenshiftUsers\<close>: the identity provider knows \<open>alice\<close>, a member of
  \<^verbatim>\<open>dedicated-admins\<close>, and 3scale knows the system admin and \<open>bob\<close>; once \<open>bob\<close> has been
  deleted, the 3scale client lists the system admin and \<open>alice\<close>. All names are in lower
  case, so that the identity stands in for \<^verbatim>\<open>strings.ToLower\<close> and equality for
  \<^verbatim>\<open>strings.EqualFold\<close>.
\<close>

definition seed :: Secret where
  "seed =
     \<lparr>Annotations = Map.empty,
      Data = [''ADMIN_USER'' \<mapsto> ''admin'', ''ADMIN_EMAIL'' \<mapsto> ''admin@example.com'',
              ''ADMIN_ACCESS_TOKEN'' \<mapsto> ''token'']\<rparr>"

definition adminUser :: User where
  "adminUser = \<lparr>UserDetails = \<lparr>Id = 1, Role = ''admin'', Username = ''admin''\<rparr>\<rparr>"

definition staleUser :: User where
  "staleUser = \<lparr>UserDetails = \<lparr>Id = 7, Role = ''member'', Username = ''bob''\<rparr>\<rparr>"

definition newUser :: User where
  "newUser = \<lparr>UserDetails = \<lparr>Id = 8, Role = ''member'', Username = ''alice''\<rparr>\<rparr>"

definition syncing :: users where
  "syncing =
     \<lparr>ReadRHSSO = None,
      Get_systemSeed_token = Inr seed,
      Get_systemSeed_admin = Inr seed,
      GetKeycloakUsers = Inr [\<lparr>UserName = ''alice'', Email = ''alice@example.com''\<rparr>],
      GetUsers = (\<lambda>events. if DeleteUser 7 \<in> set events then Inr [adminUser, newUser]
                         else Inr [adminUser, staleUser]),
      AddUser_response = (\<lambda>events name email. Inr 201),
      DeleteUser_response = (\<lambda>events i. Inr 200),
      SetUserAsAdmin_response = (\<lambda>events i. Inr 200),
      CreateOrUpdate_KeycloakUser = (\<lambda>user. None),
      Get_dedicatedAdmins = Inr [''alice''],
      isWorkshop = False,
      toLower = (\<lambda>s. s),
      equalFold = (=),
      adminRole = ''admin''\<rparr>"






section \<open>Properties of getUserDiff\<close>

lemma tsContainsKc_iff:
  "tsContainsKc EqualFold tsusers kcUser \<longleftrightarrow>
     (\<exists>t \<in> set tsusers. EqualFold (Username (UserDetails t)) (UserName kcUser))"
  by (induction tsusers) auto

lemma kcContainsTs_iff:
  "kcContainsTs EqualFold kcUsers tsUser \<longleftrightarrow>
     (\<exists>k \<in> set kcUsers. EqualFold (UserName k) (Username (UserDetails tsUser)))"
  by (induction kcUsers) auto

lemma getUserDiff_added_filter:
  "getUserDiff_added EqualFold tsUsers kcUsers added =
     added @ filter (\<lambda>k. \<not> tsContainsKc EqualFold tsUsers k) kcUsers"
  by (induction kcUsers arbitrary: added) auto

lemma getUserDiff_deleted_filter:
  "getUserDiff_deleted EqualFold kcUsers tsUsers deleted =
     deleted @ filter (\<lambda>t. \<not> kcContainsTs EqualFold kcUsers t) tsUsers"
  by (induction tsUsers arbitrary: deleted) auto

text \<open>
  Claim C8. For every pair of lists, \<open>getUserDiff\<close> returns exactly the keycloak users
  whose user name is case-insensitively equal to no 3scale user's name, in input order,
  and the 3scale users whose user name is case-insensitively equal to no keycloak
  user's name, in input order.
\<close>

theorem getUserDiff_exact:
  "getUserDiff EqualFold kcUsers tsUsers = userDiff_spec EqualFold kcUsers tsUsers"
  by (simp add: getUserDiff_def userDiff_spec_def getUserDiff_added_filter
      getUserDiff_deleted_filter tsContainsKc_iff kcContainsTs_iff)

section \<open>The passes as runs of the phase sequencer\<close>

lemma halts_simps:
  "halts (PhaseCompleted, None) = False" "halts (PhaseFailed, x) = True" "halts (y, Some z) = True"
  by (simp_all add: halts_def)

declare halts_simps [simp]

lemma Reconcile_grafana_sequencer:
  "Reconcile_grafana e V cfg product =
     (case ReconcileFinalizer e (finalFunc_grafana e) (start cfg) of
        (r, s) \<Rightarrow>
          if halts r then (r, s, product) else
          (case PhaseSequencer e grafana_steps s of
             (r, s) \<Rightarrow>
               if halts r then (r, s, product)
               else ((PhaseCompleted, None), reconcileProductVersion V s,
                     writeProduct (reconcileProductVersion V s) product)))"
  unfolding Reconcile_grafana_def grafana_steps_def
  by (simp add: Let_def reported_def split: prod.splits)

lemma Reconcile_threescale_sequencer_live:
  assumes "GetDeletionTimestamp e = None"
  shows "Reconcile_threescale e cfg product =
     (case ReconcileFinalizer e (finalFunc_threescale e) (start cfg) of
        (r, s) \<Rightarrow>
          if halts r then (r, s, product) else
          (case PhaseSequencer e (threescale_calls e) s of
             (r, s) \<Rightarrow>
               if halts r then (r, s, product)
               else ((PhaseCompleted, None), s, writeProduct s product)))"
  using assms
  apply (cases "halts (fst (ReconcileFinalizer e (finalFunc_threescale e) (start cfg)))", simp add: Reconcile_threescale_def threescale_calls_def Let_def reported_def split_beta)
  apply (cases "halts (returns e Call_ReconcileNamespace_operator)", simp add: Reconcile_threescale_def threescale_calls_def Let_def reported_def split_beta)
  apply (cases "halts (returns e Call_ReconcileNamespace_product)", simp add: Reconcile_threescale_def threescale_calls_def Let_def reported_def split_beta)
  apply (cases "halts (returns e Call_restoreSystemSecrets)", simp add: Reconcile_threescale_def threescale_calls_def Let_def reported_def split_beta)
  apply (cases "errorOf e Call_CopyPullSecretToNameSpace")
  prefer 2
  apply (simp add: Reconcile_threescale_def threescale_calls_def Let_def reported_def split_beta)
  apply (cases "halts (returns e Call_reconcileSubscription)", simp add: Reconcile_threescale_def threescale_calls_def Let_def reported_def split_beta)
  apply (cases "halts (returns e Call_reconcileSMTPCredentials)", simp add: Reconcile_threescale_def threescale_calls_def Let_def reported_def split_beta)
  apply (cases "halts (returns e Call_reconcileExternalDatasources)", simp add: Reconcile_threescale_def threescale_calls_def Let_def reported_def split_beta)
  apply (cases "halts (returns e Call_reconcileBlobStorage)", simp add: Reconcile_threescale_def threescale_calls_def Let_def reported_def split_beta)
  apply (cases "halts (returns e Call_reconcileComponents)", simp add: Reconcile_threescale_def threescale_calls_def Let_def reported_def split_beta)
  apply (cases "halts (returns e Call_reconcileRHSSOIntegration)", simp add: Reconcile_threescale_def threescale_calls_def Let_def reported_def split_beta)
  apply (cases "halts (returns e Call_reconcileBlackboxTargets)", simp add: Reconcile_threescale_def threescale_calls_def Let_def reported_def split_beta)
  apply (cases "halts (returns e Call_reconcileOpenshiftUsers)", simp add: Reconcile_threescale_def threescale_calls_def Let_def reported_def split_beta)
  apply (cases "oauthClientSecret e", simp add: Reconcile_threescale_def threescale_calls_def Let_def reported_def split_beta)
  apply (cases "snd (getThreescaleRoute (labelsParse e) (listRoutes e) None)")
  prefer 2
  apply (simp add: Reconcile_threescale_def threescale_calls_def Let_def reported_def split_beta)
  apply (cases "fst (getThreescaleRoute (labelsParse e) (listRoutes e) None)", simp add: Reconcile_threescale_def threescale_calls_def Let_def reported_def split_beta)
  apply (cases "halts (returns e Call_ReconcileOauthClient)", simp add: Reconcile_threescale_def threescale_calls_def Let_def reported_def split_beta)
  apply (cases "halts (returns e Call_reconcileServiceDiscovery)", simp add: Reconcile_threescale_def threescale_calls_def Let_def reported_def split_beta)
  apply (cases "halts (returns e Call_backupSystemSecrets)", simp add: Reconcile_threescale_def threescale_calls_def Let_def reported_def split_beta)
  apply (cases "halts (returns e Call_reconcileRouteEditRole)", simp add: Reconcile_threescale_def threescale_calls_def Let_def reported_def split_beta)
  apply (cases "halts (returns e Call_ReconcileAlerts)", simp add: Reconcile_threescale_def threescale_calls_def Let_def reported_def split_beta)
  apply (cases "halts (returns e Call_reconcileConsoleLink)", simp add: Reconcile_threescale_def threescale_calls_def Let_def reported_def split_beta)
  apply (simp add: Reconcile_threescale_def threescale_calls_def Let_def reported_def split_beta)
  done

lemma Reconcile_threescale_sequencer_deleted:
  assumes "GetDeletionTimestamp e = Some t"
  shows "Reconcile_threescale e cfg product =
     (case ReconcileFinalizer e (finalFunc_threescale e) (start cfg) of
        (r, s) \<Rightarrow>
          if halts r then (r, s, product) else
          (case PhaseSequencer e (threescale_calls e) s of
             (r, s) \<Rightarrow>
               if halts r then (r, s, product)
               else ((PhaseCompleted, None), s, writeProduct s product)))"
  using assms
  apply (cases "halts (fst (ReconcileFinalizer e (finalFunc_threescale e) (start cfg)))", simp add: Reconcile_threescale_def threescale_calls_def Let_def reported_def split_beta)
  apply (cases "halts (returns e Call_ReconcileNamespace_operator)", simp add: Reconcile_threescale_def threescale_calls_def Let_def reported_def split_beta)
  apply (cases "halts (returns e Call_ReconcileNamespace_product)", simp add: Reconcile_threescale_def threescale_calls_def Let_def reported_def split_beta)
  apply (cases "halts (returns e Call_restoreSystemSecrets)", simp add: Reconcile_threescale_def threescale_calls_def Let_def reported_def split_beta)
  apply (cases "errorOf e Call_CopyPullSecretToNameSpace")
  prefer 2
  apply (simp add: Reconcile_threescale_def threescale_calls_def Let_def reported_def split_beta)
  apply (cases "halts (returns e Call_reconcileSubscription)", simp add: Reconcile_threescale_def threescale_calls_def Let_def reported_def split_beta)
  apply (cases "halts (returns e Call_reconcileComponents)", simp add: Reconcile_threescale_def threescale_calls_def Let_def reported_def split_beta)
  apply (cases "halts (returns e Call_reconcileRHSSOIntegration)", simp add: Reconcile_threescale_def threescale_calls_def Let_def reported_def split_beta)
  apply (cases "halts (returns e Call_reconcileBlackboxTargets)", simp add: Reconcile_threescale_def threescale_calls_def Let_def reported_def split_beta)
  apply (cases "halts (returns e Call_reconcileOpenshiftUsers)", simp add: Reconcile_threescale_def threescale_calls_def Let_def reported_def split_beta)
  apply (cases "oauthClientSecret e", simp add: Reconcile_threescale_def threescale_calls_def Let_def reported_def split_beta)
  apply (cases "snd (getThreescaleRoute (labelsParse e) (listRoutes e) None)")
  prefer 2
  apply (simp add: Reconcile_threescale_def threescale_calls_def Let_def reported_def split_beta)
  apply (cases "fst (getThreescaleRoute (labelsParse e) (listRoutes e) None)", simp add: Reconcile_threescale_def threescale_calls_def Let_def reported_def split_beta)
  apply (cases "halts (returns e Call_ReconcileOauthClient)", simp add: Reconcile_threescale_def threescale_calls_def Let_def reported_def split_beta)
  apply (cases "halts (returns e Call_reconcileServiceDiscovery)", simp add: Reconcile_threescale_def threescale_calls_def Let_def reported_def split_beta)
  apply (cases "halts (returns e Call_backupSystemSecrets)", simp add: Reconcile_threescale_def threescale_calls_def Let_def reported_def split_beta)
  apply (cases "halts (returns e Call_reconcileRouteEditRole)", simp add: Reconcile_threescale_def threescale_calls_def Let_def reported_def split_beta)
  apply (cases "halts (returns e Call_ReconcileAlerts)", simp add: Reconcile_threescale_def threescale_calls_def Let_def reported_def split_beta)
  apply (cases "halts (returns e Call_reconcileConsoleLink)", simp add: Reconcile_threescale_def threescale_calls_def Let_def reported_def split_beta)
  apply (simp add: Reconcile_threescale_def threescale_calls_def Let_def reported_def split_beta)
  done


lemma Reconcile_threescale_sequencer:
  "Reconcile_threescale e cfg product =
     (case ReconcileFinalizer e (finalFunc_threescale e) (start cfg) of
        (r, s) \<Rightarrow>
          if halts r then (r, s, product) else
          (case PhaseSequencer e (threescale_calls e) s of
             (r, s) \<Rightarrow>
               if halts r then (r, s, product)
               else ((PhaseCompleted, None), s, writeProduct s product)))"
  by (cases "GetDeletionTimestamp e")
     (rule Reconcile_threescale_sequencer_live Reconcile_threescale_sequencer_deleted, assumption)+

lemma PhaseSequencer_outcome:
  "PhaseSequencer e cs s = (r, s') \<Longrightarrow>
     (\<exists>ds. calls s' = calls s @ ds \<and> set ds \<subseteq> set cs \<and>
        (\<forall>c \<in> set ds. halts (reported e c) \<longrightarrow> r = reported e c \<and> last (calls s') = c) \<and>
        (halts r \<longrightarrow> ds \<noteq> [] \<and> r = reported e (last ds)) \<and>
        (\<not> halts r \<longrightarrow> r = (PhaseCompleted, None) \<and> ds = cs))"
proof (induction cs arbitrary: s)
  case Nil
  then show ?case by auto
next
  case (Cons c cs)
  show ?case
  proof (cases "halts (reported e c)")
    case True
    with Cons.prems have "r = reported e c" "s' = call e c s" by (simp_all add: Let_def)
    then show ?thesis using True by (simp add: call_def)
  next
    case False
    with Cons.prems have "PhaseSequencer e cs (call e c s) = (r, s')" by (simp add: Let_def)
    from Cons.IH[OF this] obtain ds where
      d: "calls s' = calls (call e c s) @ ds" "set ds \<subseteq> set cs"
         "\<forall>c \<in> set ds. halts (reported e c) \<longrightarrow> r = reported e c \<and> last (calls s') = c"
         "halts r \<longrightarrow> ds \<noteq> [] \<and> r = reported e (last ds)"
         "\<not> halts r \<longrightarrow> r = (PhaseCompleted, None) \<and> ds = cs"
      by blast
    have "calls s' = calls s @ (c # ds)" using d(1) by (simp add: call_def)
    moreover have "set (c # ds) \<subseteq> set (c # cs)" using d(2) by auto
    moreover have "\<forall>x \<in> set (c # ds). halts (reported e x) \<longrightarrow> r = reported e x \<and> last (calls s') = x"
      using d(3) False by auto
    moreover have "halts r \<longrightarrow> c # ds \<noteq> [] \<and> r = reported e (last (c # ds))" using d(4) by simp
    moreover have "\<not> halts r \<longrightarrow> r = (PhaseCompleted, None) \<and> c # ds = c # cs" using d(5) by simp
    ultimately show ?thesis by (simp add: call_def)
  qed
qed

lemma reported_step:
  "c \<in> set grafana_steps \<union> set threescale_steps \<Longrightarrow> reported e c = returns e c"
  by (auto simp: reported_def grafana_steps_def threescale_steps_def)

lemma ReconcileFinalizer_calls:
  assumes "ReconcileFinalizer e finalFunc (start cfg) = (r0, s0)"
    and "finalFunc = finalFunc_grafana e \<or> finalFunc = finalFunc_threescale e"
  shows "calls s0 \<noteq> [] \<and> last (calls s0) = Call_ReconcileFinalizer \<and>
         set (calls s0) \<subseteq> insert Call_ReconcileFinalizer (set teardown_steps)"
  using assms
  by (auto simp: ReconcileFinalizer_def finalFunc_grafana_def finalFunc_threescale_def
      teardown_steps_def start_def call_def Let_def split: if_splits option.splits)

lemma teardown_not_step:
  "c \<in> insert Call_ReconcileFinalizer (set teardown_steps) \<Longrightarrow>
     c \<notin> set grafana_steps \<and> c \<notin> set (threescale_calls e)"
  by (auto simp: teardown_steps_def grafana_steps_def threescale_calls_def)

lemma PhaseSequencer_subset:
  "PhaseSequencer e cs s = (r, s') \<Longrightarrow> set (calls s') \<subseteq> set (calls s) \<union> set cs"
  using PhaseSequencer_outcome[of e cs s r s'] by auto

lemma PhaseSequencer_halted:
  assumes "PhaseSequencer e cs s = (r, s')" and "halts r"
  shows "\<exists>c \<in> set cs. c \<in> set (calls s') \<and> r = reported e c"
proof -
  from PhaseSequencer_outcome[OF assms(1)] obtain ds where
    d: "calls s' = calls s @ ds" "set ds \<subseteq> set cs"
       "halts r \<longrightarrow> ds \<noteq> [] \<and> r = reported e (last ds)"
    by blast
  with assms(2) have "last ds \<in> set ds" "r = reported e (last ds)" by simp_all
  with d(1,2) show ?thesis by auto
qed

lemma pass_outcome:
  assumes fin: "ReconcileFinalizer e finalFunc (start cfg) = (r0, s0)"
    and ff: "finalFunc = finalFunc_grafana e \<or> finalFunc = finalFunc_threescale e"
    and cs: "cs = grafana_steps \<or> cs = threescale_calls e"
    and out: "(if halts r0 then (r0, s0) else PhaseSequencer e cs s0) = (r, s)"
  shows "halts r0 \<longrightarrow> r = r0 \<and> last (calls s) = Call_ReconcileFinalizer"
    and "\<forall>c \<in> set cs. c \<in> set (calls s) \<and> halts (reported e c) \<longrightarrow>
            r = reported e c \<and> last (calls s) = c"
    and "\<not> halts r \<longrightarrow> r = (PhaseCompleted, None) \<and> \<not> halts r0 \<and>
            (\<forall>c \<in> set cs. \<not> halts (reported e c)) \<and> calls s = calls s0 @ cs"
    and "halts r \<and> \<not> halts r0 \<longrightarrow> (\<exists>c \<in> set cs. c \<in> set (calls s) \<and> r = reported e c)"
    and "set (calls s) \<subseteq> insert Call_ReconcileFinalizer (set teardown_steps) \<union> set cs"
proof -
  note F = ReconcileFinalizer_calls[OF fin ff]
  have notin: "\<forall>c \<in> set cs. c \<notin> set (calls s0)"
  proof
    fix c assume "c \<in> set cs"
    then have "c \<in> set grafana_steps \<or> c \<in> set (threescale_calls e)" using cs by auto
    then have "c \<notin> insert Call_ReconcileFinalizer (set teardown_steps)"
      using teardown_not_step[of c e] by blast
    then show "c \<notin> set (calls s0)" using F by blast
  qed
  have rs: "halts r0 \<Longrightarrow> r = r0 \<and> s = s0" using out by simp
  have seq: "\<not> halts r0 \<Longrightarrow> PhaseSequencer e cs s0 = (r, s)" using out by simp
  show "halts r0 \<longrightarrow> r = r0 \<and> last (calls s) = Call_ReconcileFinalizer"
    using rs F by simp
  show "\<forall>c \<in> set cs. c \<in> set (calls s) \<and> halts (reported e c) \<longrightarrow>
            r = reported e c \<and> last (calls s) = c"
  proof (intro ballI impI)
    fix c assume m: "c \<in> set cs" and h: "c \<in> set (calls s) \<and> halts (reported e c)"
    have n0: "\<not> halts r0"
    proof
      assume "halts r0"
      with rs have "s = s0" by simp
      with h m notin show False by simp
    qed
    from PhaseSequencer_outcome[OF seq[OF n0]] obtain ds where
      d: "calls s = calls s0 @ ds"
         "\<forall>c \<in> set ds. halts (reported e c) \<longrightarrow> r = reported e c \<and> last (calls s) = c"
      by blast
    have "c \<in> set ds" using d(1) h m notin by auto
    with h d(2) show "r = reported e c \<and> last (calls s) = c" by blast
  qed
  show "\<not> halts r \<longrightarrow> r = (PhaseCompleted, None) \<and> \<not> halts r0 \<and>
            (\<forall>c \<in> set cs. \<not> halts (reported e c)) \<and> calls s = calls s0 @ cs"
  proof
    assume n: "\<not> halts r"
    have n0: "\<not> halts r0" using rs n by blast
    from PhaseSequencer_outcome[OF seq[OF n0]] obtain ds where
      d: "calls s = calls s0 @ ds"
         "\<forall>c \<in> set ds. halts (reported e c) \<longrightarrow> r = reported e c \<and> last (calls s) = c"
         "\<not> halts r \<longrightarrow> r = (PhaseCompleted, None) \<and> ds = cs"
      by blast
    have e1: "r = (PhaseCompleted, None)" and e2: "ds = cs" using d(3) n by simp_all
    have "\<forall>c \<in> set cs. \<not> halts (reported e c)"
    proof
      fix c assume "c \<in> set cs"
      then have "c \<in> set ds" using e2 by simp
      then show "\<not> halts (reported e c)" using d(2) n by metis
    qed
    then show "r = (PhaseCompleted, None) \<and> \<not> halts r0 \<and>
            (\<forall>c \<in> set cs. \<not> halts (reported e c)) \<and> calls s = calls s0 @ cs"
      using e1 e2 n0 d(1) by simp
  qed
  show "halts r \<and> \<not> halts r0 \<longrightarrow> (\<exists>c \<in> set cs. c \<in> set (calls s) \<and> r = reported e c)"
    using PhaseSequencer_halted seq by blast
  show "set (calls s) \<subseteq> insert Call_ReconcileFinalizer (set teardown_steps) \<union> set cs"
  proof (cases "halts r0")
    case True
    then show ?thesis using rs F by auto
  next
    case False
    from PhaseSequencer_subset[OF seq[OF False]] F show ?thesis by blast
  qed
qed

lemma grafana_pass:
  assumes "Reconcile_grafana e V cfg product = (r, s, p')"
  shows "\<exists>r0 s0 s1. ReconcileFinalizer e (finalFunc_grafana e) (start cfg) = (r0, s0) \<and>
           (if halts r0 then (r0, s0) else PhaseSequencer e grafana_steps s0) = (r, s1) \<and>
           calls s = calls s1 \<and>
           (halts r \<longrightarrow> s = s1 \<and> p' = product) \<and>
           (\<not> halts r \<longrightarrow> s = reconcileProductVersion V s1 \<and> p' = writeProduct s product)"
proof -
  obtain r0 s0 where f: "ReconcileFinalizer e (finalFunc_grafana e) (start cfg) = (r0, s0)"
    by (cases "ReconcileFinalizer e (finalFunc_grafana e) (start cfg)")
  obtain r1 s1 where q: "PhaseSequencer e grafana_steps s0 = (r1, s1)"
    by (cases "PhaseSequencer e grafana_steps s0")
  have n: "\<not> halts r1 \<Longrightarrow> r1 = (PhaseCompleted, None)"
    using PhaseSequencer_outcome[OF q] by blast
  have c: "calls (reconcileProductVersion V s1) = calls s1"
    by (simp add: reconcileProductVersion_def WriteConfig_def)
  show ?thesis
    using assms f q n c unfolding Reconcile_grafana_sequencer
    by (auto split: if_splits)
qed

lemma threescale_pass:
  assumes "Reconcile_threescale e cfg product = (r, s, p')"
  shows "\<exists>r0 s0. ReconcileFinalizer e (finalFunc_threescale e) (start cfg) = (r0, s0) \<and>
           (if halts r0 then (r0, s0) else PhaseSequencer e (threescale_calls e) s0) = (r, s) \<and>
           (halts r \<longrightarrow> p' = product) \<and>
           (\<not> halts r \<longrightarrow> p' = writeProduct s product)"
proof -
  obtain r0 s0 where f: "ReconcileFinalizer e (finalFunc_threescale e) (start cfg) = (r0, s0)"
    by (cases "ReconcileFinalizer e (finalFunc_threescale e) (start cfg)")
  obtain r1 s1 where q: "PhaseSequencer e (threescale_calls e) s0 = (r1, s1)"
    by (cases "PhaseSequencer e (threescale_calls e) s0")
  have n: "\<not> halts r1 \<Longrightarrow> r1 = (PhaseCompleted, None)"
    using PhaseSequencer_outcome[OF q] by blast
  show ?thesis
    using assms f q n unfolding Reconcile_threescale_sequencer
    by (auto split: if_splits)
qed

lemma grafana_outcome:
  assumes rec: "Reconcile_grafana e V cfg product = (r, s, p')"
    and fin: "ReconcileFinalizer e (finalFunc_grafana e) (start cfg) = (r0, s0)"
  shows "halts r0 \<longrightarrow> r = r0 \<and> last (calls s) = Call_ReconcileFinalizer"
    and "\<forall>c \<in> set grafana_steps. c \<in> set (calls s) \<and> halts (reported e c) \<longrightarrow>
            r = reported e c \<and> last (calls s) = c"
    and "\<not> halts r \<longrightarrow> r = (PhaseCompleted, None) \<and> \<not> halts r0 \<and>
            (\<forall>c \<in> set grafana_steps. \<not> halts (reported e c)) \<and>
            calls s = calls s0 @ grafana_steps"
    and "halts r \<and> \<not> halts r0 \<longrightarrow>
            (\<exists>c \<in> set grafana_steps. c \<in> set (calls s) \<and> r = reported e c)"
    and "set (calls s) \<subseteq> insert Call_ReconcileFinalizer (set teardown_steps) \<union> set grafana_steps"
    and "halts r \<longrightarrow> p' = product"
    and "\<not> halts r \<longrightarrow> p' = writeProduct s product"
proof -
  from grafana_pass[OF rec] fin obtain s1 where
    o: "(if halts r0 then (r0, s0) else PhaseSequencer e grafana_steps s0) = (r, s1)" and
    c: "calls s = calls s1" and
    h: "halts r \<longrightarrow> s = s1 \<and> p' = product" and
    n: "\<not> halts r \<longrightarrow> s = reconcileProductVersion V s1 \<and> p' = writeProduct s product"
    by auto
  have ff: "finalFunc_grafana e = finalFunc_grafana e \<or> finalFunc_grafana e = finalFunc_threescale e"
    by simp
  have cs: "grafana_steps = grafana_steps \<or> grafana_steps = threescale_calls e" by simp
  note P = pass_outcome[OF fin ff cs o]
  show "halts r0 \<longrightarrow> r = r0 \<and> last (calls s) = Call_ReconcileFinalizer"
    using P(1) c by simp
  show "\<forall>c \<in> set grafana_steps. c \<in> set (calls s) \<and> halts (reported e c) \<longrightarrow>
            r = reported e c \<and> last (calls s) = c"
    using P(2) c by simp
  show "\<not> halts r \<longrightarrow> r = (PhaseCompleted, None) \<and> \<not> halts r0 \<and>
            (\<forall>c \<in> set grafana_steps. \<not> halts (reported e c)) \<and>
            calls s = calls s0 @ grafana_steps"
    using P(3) c by simp
  show "halts r \<and> \<not> halts r0 \<longrightarrow>
            (\<exists>c \<in> set grafana_steps. c \<in> set (calls s) \<and> r = reported e c)"
    using P(4) c by simp
  show "set (calls s) \<subseteq> insert Call_ReconcileFinalizer (set teardown_steps) \<union> set grafana_steps"
    using P(5) c by simp
  show "halts r \<longrightarrow> p' = product"
    using h by simp
  show "\<not> halts r \<longrightarrow> p' = writeProduct s product"
    using n by simp
qed

lemma threescale_outcome:
  assumes rec: "Reconcile_threescale e cfg product = (r, s, p')"
    and fin: "ReconcileFinalizer e (finalFunc_threescale e) (start cfg) = (r0, s0)"
  shows "halts r0 \<longrightarrow> r = r0 \<and> last (calls s) = Call_ReconcileFinalizer"
    and "\<forall>c \<in> set (threescale_calls e). c \<in> set (calls s) \<and> halts (reported e c) \<longrightarrow>
            r = reported e c \<and> last (calls s) = c"
    and "\<not> halts r \<longrightarrow> r = (PhaseCompleted, None) \<and> \<not> halts r0 \<and>
            (\<forall>c \<in> set (threescale_calls e). \<not> halts (reported e c)) \<and>
            calls s = calls s0 @ threescale_calls e"
    and "halts r \<and> \<not> halts r0 \<longrightarrow>
            (\<exists>c \<in> set (threescale_calls e). c \<in> set (calls s) \<and> r = reported e c)"
    and "set (calls s) \<subseteq>
           insert Call_ReconcileFinalizer (set teardown_steps) \<union> set (threescale_calls e)"
    and "halts r \<longrightarrow> p' = product"
    and "\<not> halts r \<longrightarrow> p' = writeProduct s product"
proof -
  from threescale_pass[OF rec] fin have
    o: "(if halts r0 then (r0, s0) else PhaseSequencer e (threescale_calls e) s0) = (r, s)" and
    h: "halts r \<longrightarrow> p' = product" and
    n: "\<not> halts r \<longrightarrow> p' = writeProduct s product"
    by auto
  have ff: "finalFunc_threescale e = finalFunc_grafana e \<or> finalFunc_threescale e = finalFunc_threescale e"
    by simp
  have cs: "threescale_calls e = grafana_steps \<or> threescale_calls e = threescale_calls e" by simp
  note P = pass_outcome[OF fin ff cs o]
  show "halts r0 \<longrightarrow> r = r0 \<and> last (calls s) = Call_ReconcileFinalizer" by (rule P(1))
  show "\<forall>c \<in> set (threescale_calls e). c \<in> set (calls s) \<and> halts (reported e c) \<longrightarrow>
            r = reported e c \<and> last (calls s) = c" by (rule P(2))
  show "\<not> halts r \<longrightarrow> r = (PhaseCompleted, None) \<and> \<not> halts r0 \<and>
            (\<forall>c \<in> set (threescale_calls e). \<not> halts (reported e c)) \<and>
            calls s = calls s0 @ threescale_calls e" by (rule P(3))
  show "halts r \<and> \<not> halts r0 \<longrightarrow>
            (\<exists>c \<in> set (threescale_calls e). c \<in> set (calls s) \<and> r = reported e c)" by (rule P(4))
  show "set (calls s) \<subseteq>
           insert Call_ReconcileFinalizer (set teardown_steps) \<union> set (threescale_calls e)" by (rule P(5))
  show "halts r \<longrightarrow> p' = product" by (rule h)
  show "\<not> halts r \<longrightarrow> p' = writeProduct s product" by (rule n)
qed

lemma finalFunc_short_circuit:
  assumes "finalFunc_grafana e (start cfg) = (r, s) \<or> finalFunc_threescale e (start cfg) = (r, s)"
    and "c \<in> set teardown_steps" and "c \<in> set (calls s)" and "halts (reported e c)"
  shows "r = reported e c \<and> last (calls s) = c"
  using assms
  by (auto simp: finalFunc_grafana_def finalFunc_threescale_def teardown_steps_def start_def
      call_def Let_def reported_def split: if_splits option.splits)

lemma step_in_calls:
  assumes "c \<in> set threescale_steps" and "c \<in> set (calls s)"
    and "set (calls s) \<subseteq>
           insert Call_ReconcileFinalizer (set teardown_steps) \<union> set (threescale_calls e)"
  shows "c \<in> set (threescale_calls e)"
proof -
  have "c \<notin> insert Call_ReconcileFinalizer (set teardown_steps)"
    using assms(1) by (auto simp: threescale_steps_def teardown_steps_def)
  with assms(2,3) show ?thesis by blast
qed

lemma not_halts_iff: "\<not> halts r \<longleftrightarrow> r = (PhaseCompleted, None)"
  by (cases r) (auto simp: halts_def)

lemma threescale_calls_kinds:
  "c \<in> set (threescale_calls e) \<Longrightarrow>
     c \<in> set threescale_steps \<or> c = Call_CopyPullSecretToNameSpace \<or>
     c = Call_getOauthClientSecret \<or> c = Call_getThreescaleRoute"
  by (auto simp: threescale_calls_def threescale_steps_def split: if_splits)

lemma step_not_teardown:
  "c \<in> set grafana_steps \<union> set threescale_steps \<Longrightarrow>
     c \<notin> insert Call_ReconcileFinalizer (set teardown_steps)"
  by (auto simp: grafana_steps_def threescale_steps_def teardown_steps_def)

lemma PhaseSequencer_stops:
  "\<forall>x \<in> set cs1. \<not> halts (reported e x) \<Longrightarrow> halts (reported e c) \<Longrightarrow>
     fst (PhaseSequencer e (cs1 @ c # cs2) s) = reported e c"
  by (induction cs1 arbitrary: s) (simp_all add: Let_def)

lemma threescale_calls_split:
  "\<exists>rest. threescale_calls e =
     takeWhile (\<lambda>c. c \<noteq> Call_getThreescaleRoute) (threescale_calls e) @
     Call_getThreescaleRoute # rest"
proof -
  let ?P = "\<lambda>c. c \<noteq> Call_getThreescaleRoute"
  have "Call_getThreescaleRoute \<in> set (threescale_calls e)"
    by (simp add: threescale_calls_def)
  then have ne: "dropWhile ?P (threescale_calls e) \<noteq> []" by (simp add: dropWhile_eq_Nil_conv)
  then have "\<not> ?P (hd (dropWhile ?P (threescale_calls e)))" by (rule hd_dropWhile)
  with ne have "dropWhile ?P (threescale_calls e) =
      Call_getThreescaleRoute # tl (dropWhile ?P (threescale_calls e))"
    by (cases "dropWhile ?P (threescale_calls e)") simp_all
  moreover have "threescale_calls e =
      takeWhile ?P (threescale_calls e) @ dropWhile ?P (threescale_calls e)"
    by simp
  ultimately show ?thesis by metis
qed

lemma PhaseSequencer_trace:
  "calls (snd (PhaseSequencer e cs s)) =
     calls s @ takeWhile (\<lambda>x. \<not> halts (reported e x)) cs @
       take 1 (dropWhile (\<lambda>x. \<not> halts (reported e x)) cs)"
  by (induction cs arbitrary: s) (simp_all add: Let_def call_def)






lemma sequencer_order:
  fixes P :: "callee \<Rightarrow> bool"
  assumes tr: "trace = pre @ takeWhile P cs @ take 1 (dropWhile P cs)"
    and pre: "\<forall>x \<in> set steps. x \<notin> set pre"
    and d: "distinct steps"
    and ord: "filter (\<lambda>x. x \<in> set steps) cs = filter Q steps"
    and sp: "steps = before @ c # after"
    and c: "c \<in> set trace" "\<not> P c"
  shows "last trace = c \<and> (\<forall>c' \<in> set after. c' \<notin> set trace) \<and>
         filter (\<lambda>x. x \<in> set steps) trace = filter Q before @ [c]"
proof -
  let ?S = "\<lambda>x. x \<in> set steps"
  have cs: "c \<in> set steps" using sp by simp
  have nb: "c \<notin> set before" "c \<notin> set after" using d sp by auto
  have "c \<notin> set pre" using pre cs by blast
  moreover have "c \<notin> set (takeWhile P cs)" using c(2) by (auto dest: set_takeWhileD)
  ultimately have "c \<in> set (take 1 (dropWhile P cs))" using c(1) tr by auto
  then obtain rest where dw: "dropWhile P cs = c # rest"
    by (cases "dropWhile P cs") auto
  then have t1: "trace = pre @ takeWhile P cs @ [c]" using tr by simp
  have sc: "cs = takeWhile P cs @ c # rest" using dw takeWhile_dropWhile_id[of P cs] by simp
  then have "filter ?S cs = filter ?S (takeWhile P cs) @ c # filter ?S rest"
    using cs by (metis filter.simps(2) filter_append)
  moreover have "c \<in> set cs" using sc by (metis in_set_conv_decomp)
  then have "c \<in> set (filter ?S cs)" using cs by simp
  then have "Q c" using ord by simp
  then have "filter Q steps = filter Q before @ c # filter Q after" using sp by simp
  ultimately have "filter Q before @ c # filter Q after =
      filter ?S (takeWhile P cs) @ c # filter ?S rest"
    using ord by simp
  moreover have "c \<notin> set (filter Q before)" "c \<notin> set (filter Q after)" using nb by simp_all
  ultimately have e: "filter ?S (takeWhile P cs) = filter Q before"
    by (simp add: append_Cons_eq_iff)
  have "filter ?S pre = []" using pre by (auto simp: filter_empty_conv)
  then have f: "filter ?S trace = filter Q before @ [c]" using t1 e cs by simp
  have "\<forall>c' \<in> set after. c' \<notin> set trace"
  proof
    fix c' assume a: "c' \<in> set after"
    show "c' \<notin> set trace"
    proof
      assume "c' \<in> set trace"
      moreover have "c' \<in> set steps" using a sp by simp
      ultimately have "c' \<in> set (filter ?S trace)" by simp
      then have "c' \<in> set before \<or> c' = c" using f by auto
      with a d sp show False by auto
    qed
  qed
  with t1 f show ?thesis by simp
qed

lemma steps_distinct: "distinct grafana_steps" "distinct threescale_steps"
  by (simp_all add: grafana_steps_def threescale_steps_def)

lemma steps_order:
  "filter (\<lambda>x. x \<in> set grafana_steps) grafana_steps = filter (\<lambda>x. \<not> guarded e x) grafana_steps"
  "filter (\<lambda>x. x \<in> set threescale_steps) (threescale_calls e) =
     filter (\<lambda>x. \<not> guarded e x) threescale_steps"
  by (simp_all add: grafana_steps_def threescale_steps_def threescale_calls_def guarded_def)

lemma grafana_trace:
  assumes "Reconcile_grafana e V cfg product = (r, s, p')"
  shows "calls s =
     calls (snd (ReconcileFinalizer e (finalFunc_grafana e) (start cfg))) @
     (if halts (fst (ReconcileFinalizer e (finalFunc_grafana e) (start cfg))) then []
      else takeWhile (\<lambda>x. \<not> halts (reported e x)) grafana_steps @
           take 1 (dropWhile (\<lambda>x. \<not> halts (reported e x)) grafana_steps))"
proof -
  from grafana_pass[OF assms] obtain r0 s0 s1 where
    f: "ReconcileFinalizer e (finalFunc_grafana e) (start cfg) = (r0, s0)" and
    o: "(if halts r0 then (r0, s0) else PhaseSequencer e grafana_steps s0) = (r, s1)" and
    c: "calls s = calls s1"
    by blast
  show ?thesis
  proof (cases "halts r0")
    case True
    with o c f show ?thesis by simp
  next
    case False
    with o have "s1 = snd (PhaseSequencer e grafana_steps s0)" by simp
    with c f False show ?thesis by (simp add: PhaseSequencer_trace)
  qed
qed

lemma threescale_trace:
  assumes "Reconcile_threescale e cfg product = (r, s, p')"
  shows "calls s =
     calls (snd (ReconcileFinalizer e (finalFunc_threescale e) (start cfg))) @
     (if halts (fst (ReconcileFinalizer e (finalFunc_threescale e) (start cfg))) then []
      else takeWhile (\<lambda>x. \<not> halts (reported e x)) (threescale_calls e) @
           take 1 (dropWhile (\<lambda>x. \<not> halts (reported e x)) (threescale_calls e)))"
proof -
  from threescale_pass[OF assms] obtain r0 s0 where
    f: "ReconcileFinalizer e (finalFunc_threescale e) (start cfg) = (r0, s0)" and
    o: "(if halts r0 then (r0, s0) else PhaseSequencer e (threescale_calls e) s0) = (r, s)"
    by blast
  show ?thesis
  proof (cases "halts r0")
    case True
    with o f show ?thesis by simp
  next
    case False
    with o have "s = snd (PhaseSequencer e (threescale_calls e) s0)" by simp
    with f False show ?thesis by (simp add: PhaseSequencer_trace)
  qed
qed

lemma pass_order:
  assumes tr: "calls s = calls s0 @
       (if halts r0 then []
        else takeWhile (\<lambda>x. \<not> halts (reported e x)) cs @
             take 1 (dropWhile (\<lambda>x. \<not> halts (reported e x)) cs))"
    and s0: "set (calls s0) \<subseteq> insert Call_ReconcileFinalizer (set teardown_steps)"
    and st: "steps = grafana_steps \<or> steps = threescale_steps"
    and ord: "filter (\<lambda>x. x \<in> set steps) cs = filter (\<lambda>x. \<not> guarded e x) steps"
    and sp: "steps = before @ c # after"
    and c: "c \<in> set (calls s)" "halts (returns e c)"
  shows "last (calls s) = c \<and> (\<forall>c' \<in> set after. c' \<notin> set (calls s)) \<and>
         filter (\<lambda>x. x \<in> set steps) (calls s) = filter (\<lambda>x. \<not> guarded e x) before @ [c]"
proof -
  have "c \<in> set steps" using sp by (metis in_set_conv_decomp)
  then have m: "c \<in> set grafana_steps \<union> set threescale_steps" using st by auto
  have pre: "\<forall>x \<in> set steps. x \<notin> set (calls s0)"
  proof
    fix x assume "x \<in> set steps"
    then have "x \<in> set grafana_steps \<union> set threescale_steps" using st by auto
    from step_not_teardown[OF this] s0 show "x \<notin> set (calls s0)" by blast
  qed
  have n0: "\<not> halts r0"
  proof
    assume "halts r0"
    with tr have "calls s = calls s0" by simp
    with c(1) pre sp show False by simp
  qed
  have t: "calls s = calls s0 @ takeWhile (\<lambda>x. \<not> halts (reported e x)) cs @
             take 1 (dropWhile (\<lambda>x. \<not> halts (reported e x)) cs)"
    using tr n0 by simp
  have d: "distinct steps" using st steps_distinct by auto
  have h: "\<not> \<not> halts (reported e c)" using c(2) m by (simp add: reported_step)
  from sequencer_order[where P = "\<lambda>x. \<not> halts (reported e x)", OF t pre d ord sp c(1) h]
  show ?thesis .
qed

lemma replay_start: "start cfg = replay e (calls (start cfg)) cfg"
  by (simp add: replay_def start_def)

lemma call_replay:
  assumes "s = replay e (calls s) cfg"
  shows "call e c s = replay e (calls (call e c s)) cfg"
proof -
  have "calls (call e c s) = calls s @ [c]" by (simp add: call_def)
  then have "replay e (calls (call e c s)) cfg = call e c (replay e (calls s) cfg)"
    by (simp add: replay_def)
  with assms show ?thesis by simp
qed

lemma PhaseSequencer_replay:
  "s = replay e (calls s) cfg \<Longrightarrow>
     snd (PhaseSequencer e cs s) = replay e (calls (snd (PhaseSequencer e cs s))) cfg"
proof (induction cs arbitrary: s)
  case Nil
  then show ?case by simp
next
  case (Cons c cs)
  from call_replay[OF Cons.prems, of c] Cons.IH[of "call e c s"]
  show ?case by (simp add: Let_def)
qed

lemma finalFunc_replay:
  assumes "finalFunc = finalFunc_grafana e \<or> finalFunc = finalFunc_threescale e"
  shows "snd (finalFunc (start cfg)) = replay e (calls (snd (finalFunc (start cfg)))) cfg"
  using assms
  by (auto simp: finalFunc_grafana_def finalFunc_threescale_def replay_def start_def call_def
      Let_def split: option.splits)

lemma ReconcileFinalizer_replay:
  assumes "finalFunc = finalFunc_grafana e \<or> finalFunc = finalFunc_threescale e"
  shows "snd (ReconcileFinalizer e finalFunc (start cfg)) =
           replay e (calls (snd (ReconcileFinalizer e finalFunc (start cfg)))) cfg"
proof (cases "finalizerRuns e")
  case True
  then have "snd (ReconcileFinalizer e finalFunc (start cfg)) =
      call e Call_ReconcileFinalizer (snd (finalFunc (start cfg)))"
    by (simp add: ReconcileFinalizer_def split_beta)
  with call_replay[OF finalFunc_replay[OF assms, of cfg], of Call_ReconcileFinalizer]
  show ?thesis by simp
next
  case False
  then have "snd (ReconcileFinalizer e finalFunc (start cfg)) =
      call e Call_ReconcileFinalizer (start cfg)"
    by (simp add: ReconcileFinalizer_def)
  with call_replay[OF replay_start, of e Call_ReconcileFinalizer cfg]
  show ?thesis by simp
qed

lemma pass_replay:
  assumes fin: "ReconcileFinalizer e finalFunc (start cfg) = (r0, s0)"
    and ff: "finalFunc = finalFunc_grafana e \<or> finalFunc = finalFunc_threescale e"
    and out: "(if halts r0 then (r0, s0) else PhaseSequencer e cs s0) = (r, s)"
  shows "s = replay e (calls s) cfg"
proof -
  have 0: "s0 = replay e (calls s0) cfg"
    using ReconcileFinalizer_replay[OF ff, of cfg] fin by simp
  show ?thesis
  proof (cases "halts r0")
    case True
    with out 0 show ?thesis by simp
  next
    case False
    with out have "s = snd (PhaseSequencer e cs s0)" by simp
    with PhaseSequencer_replay[OF 0, of cs] show ?thesis by simp
  qed
qed

section \<open>Properties of the Reconcile entry points\<close>

text \<open>
  Claim C1. In a pass of the Grafana or of the 3scale \<^verbatim>\<open>Reconcile\<close>, for every step of the
  ordered step list: if the step is executed and returns a non-nil error or a phase
  other than Completed, \<^verbatim>\<open>Reconcile\<close> returns that phase and error, the step is the last
  call of the pass, and no step that follows it in the list is executed; the steps
  that were executed are the steps before it in the list, in the order of the list
  (without the three guarded steps of 3scale under a deletion marker), and then the
  step itself. The same holds for \<^verbatim>\<open>ReconcileFinalizer\<close>, which precedes both lists, and
  for the teardown steps inside the function it is handed. The calls of a pass after
  \<^verbatim>\<open>ReconcileFinalizer\<close> are the calls of \<^verbatim>\<open>Reconcile\<close> in source order up to and including the
  first one on which it stops.
\<close>

theorem Reconcile_short_circuit:
  assumes "Reconcile_grafana e V cfg product = (r, s, p') \<and> steps = grafana_steps \<and>
             finalFunc = finalFunc_grafana e \<and> cs = grafana_steps
         \<or> Reconcile_threescale e cfg product = (r, s, p') \<and> steps = threescale_steps \<and>
             finalFunc = finalFunc_threescale e \<and> cs = threescale_calls e"
  shows "(halts (fst (ReconcileFinalizer e finalFunc (start cfg))) \<longrightarrow>
            r = fst (ReconcileFinalizer e finalFunc (start cfg)) \<and>
            last (calls s) = Call_ReconcileFinalizer) \<and>
         (\<forall>before c after.
            steps = before @ c # after \<and> c \<in> set (calls s) \<and> halts (returns e c) \<longrightarrow>
            r = returns e c \<and> last (calls s) = c \<and>
            (\<forall>c' \<in> set after. c' \<notin> set (calls s)) \<and>
            filter (\<lambda>x. x \<in> set steps) (calls s) =
              filter (\<lambda>x. \<not> guarded e x) before @ [c]) \<and>
         (\<forall>c \<in> set teardown_steps.
            c \<in> set (calls (snd (finalFunc (start cfg)))) \<and> halts (reported e c) \<longrightarrow>
            fst (finalFunc (start cfg)) = reported e c \<and>
            last (calls (snd (finalFunc (start cfg)))) = c) \<and>
         calls s =
           calls (snd (ReconcileFinalizer e finalFunc (start cfg))) @
           (if halts (fst (ReconcileFinalizer e finalFunc (start cfg))) then []
            else takeWhile (\<lambda>x. \<not> halts (reported e x)) cs @
                 take 1 (dropWhile (\<lambda>x. \<not> halts (reported e x)) cs))"
  using assms
proof (elim disjE conjE)
  assume a: "Reconcile_grafana e V cfg product = (r, s, p')" "steps = grafana_steps"
    "finalFunc = finalFunc_grafana e" "cs = grafana_steps"
  obtain r0 s0 where f: "ReconcileFinalizer e (finalFunc_grafana e) (start cfg) = (r0, s0)"
    by (cases "ReconcileFinalizer e (finalFunc_grafana e) (start cfg)")
  note O = grafana_outcome[OF a(1) f]
  have 4: "calls s =
      calls (snd (ReconcileFinalizer e (finalFunc_grafana e) (start cfg))) @
      (if halts (fst (ReconcileFinalizer e (finalFunc_grafana e) (start cfg))) then []
       else takeWhile (\<lambda>x. \<not> halts (reported e x)) grafana_steps @
            take 1 (dropWhile (\<lambda>x. \<not> halts (reported e x)) grafana_steps))"
    by (rule grafana_trace[OF a(1)])
  have tr: "calls s = calls s0 @
       (if halts r0 then []
        else takeWhile (\<lambda>x. \<not> halts (reported e x)) grafana_steps @
             take 1 (dropWhile (\<lambda>x. \<not> halts (reported e x)) grafana_steps))"
    using 4 unfolding f by simp
  have 1: "halts (fst (ReconcileFinalizer e (finalFunc_grafana e) (start cfg))) \<longrightarrow>
      r = fst (ReconcileFinalizer e (finalFunc_grafana e) (start cfg)) \<and>
      last (calls s) = Call_ReconcileFinalizer"
    using O(1) unfolding f by simp
  have s0: "set (calls s0) \<subseteq> insert Call_ReconcileFinalizer (set teardown_steps)"
    using ReconcileFinalizer_calls[OF f] by simp
  have st: "\<forall>before c after.
      grafana_steps = before @ c # after \<and> c \<in> set (calls s) \<and> halts (returns e c) \<longrightarrow>
      r = returns e c \<and> last (calls s) = c \<and>
      (\<forall>c' \<in> set after. c' \<notin> set (calls s)) \<and>
      filter (\<lambda>x. x \<in> set grafana_steps) (calls s) =
        filter (\<lambda>x. \<not> guarded e x) before @ [c]"
  proof (intro allI impI)
    fix before c after
    assume h: "grafana_steps = before @ c # after \<and> c \<in> set (calls s) \<and> halts (returns e c)"
    then have m: "c \<in> set grafana_steps" by (metis in_set_conv_decomp)
    then have "reported e c = returns e c" by (simp add: reported_step)
    with O(2) m h have 1: "r = returns e c" by metis
    from pass_order[OF tr s0 _ steps_order(1), of before c after] h
    have "last (calls s) = c \<and> (\<forall>c' \<in> set after. c' \<notin> set (calls s)) \<and>
         filter (\<lambda>x. x \<in> set grafana_steps) (calls s) =
           filter (\<lambda>x. \<not> guarded e x) before @ [c]"
      by simp
    with 1 show "r = returns e c \<and> last (calls s) = c \<and>
      (\<forall>c' \<in> set after. c' \<notin> set (calls s)) \<and>
      filter (\<lambda>x. x \<in> set grafana_steps) (calls s) =
        filter (\<lambda>x. \<not> guarded e x) before @ [c]"
      by simp
  qed
  have td: "\<forall>c \<in> set teardown_steps.
            c \<in> set (calls (snd (finalFunc_grafana e (start cfg)))) \<and> halts (reported e c) \<longrightarrow>
            fst (finalFunc_grafana e (start cfg)) = reported e c \<and>
            last (calls (snd (finalFunc_grafana e (start cfg)))) = c"
    using finalFunc_short_circuit[of e cfg "fst (finalFunc_grafana e (start cfg))"
        "snd (finalFunc_grafana e (start cfg))"]
    by simp
  show ?thesis unfolding a(2,3,4) using 1 st td 4 by (intro conjI) assumption+
next
  assume a: "Reconcile_threescale e cfg product = (r, s, p')" "steps = threescale_steps"
    "finalFunc = finalFunc_threescale e" "cs = threescale_calls e"
  obtain r0 s0 where f: "ReconcileFinalizer e (finalFunc_threescale e) (start cfg) = (r0, s0)"
    by (cases "ReconcileFinalizer e (finalFunc_threescale e) (start cfg)")
  note O = threescale_outcome[OF a(1) f]
  have 4: "calls s =
      calls (snd (ReconcileFinalizer e (finalFunc_threescale e) (start cfg))) @
      (if halts (fst (ReconcileFinalizer e (finalFunc_threescale e) (start cfg))) then []
       else takeWhile (\<lambda>x. \<not> halts (reported e x)) (threescale_calls e) @
            take 1 (dropWhile (\<lambda>x. \<not> halts (reported e x)) (threescale_calls e)))"
    by (rule threescale_trace[OF a(1)])
  have tr: "calls s = calls s0 @
       (if halts r0 then []
        else takeWhile (\<lambda>x. \<not> halts (reported e x)) (threescale_calls e) @
             take 1 (dropWhile (\<lambda>x. \<not> halts (reported e x)) (threescale_calls e)))"
    using 4 unfolding f by simp
  have 1: "halts (fst (ReconcileFinalizer e (finalFunc_threescale e) (start cfg))) \<longrightarrow>
      r = fst (ReconcileFinalizer e (finalFunc_threescale e) (start cfg)) \<and>
      last (calls s) = Call_ReconcileFinalizer"
    using O(1) unfolding f by simp
  have s0: "set (calls s0) \<subseteq> insert Call_ReconcileFinalizer (set teardown_steps)"
    using ReconcileFinalizer_calls[OF f] by simp
  have st: "\<forall>before c after.
      threescale_steps = before @ c # after \<and> c \<in> set (calls s) \<and> halts (returns e c) \<longrightarrow>
      r = returns e c \<and> last (calls s) = c \<and>
      (\<forall>c' \<in> set after. c' \<notin> set (calls s)) \<and>
      filter (\<lambda>x. x \<in> set threescale_steps) (calls s) =
        filter (\<lambda>x. \<not> guarded e x) before @ [c]"
  proof (intro allI impI)
    fix before c after
    assume h: "threescale_steps = before @ c # after \<and> c \<in> set (calls s) \<and>
      halts (returns e c)"
    then have m: "c \<in> set threescale_steps" by (metis in_set_conv_decomp)
    have i: "c \<in> set (threescale_calls e)" using step_in_calls[OF m _ O(5)] h by simp
    have "reported e c = returns e c" using m by (simp add: reported_step)
    with O(2) i h have 1: "r = returns e c" by metis
    from pass_order[OF tr s0 _ steps_order(2), of before c after] h
    have "last (calls s) = c \<and> (\<forall>c' \<in> set after. c' \<notin> set (calls s)) \<and>
         filter (\<lambda>x. x \<in> set threescale_steps) (calls s) =
           filter (\<lambda>x. \<not> guarded e x) before @ [c]"
      by simp
    with 1 show "r = returns e c \<and> last (calls s) = c \<and>
      (\<forall>c' \<in> set after. c' \<notin> set (calls s)) \<and>
      filter (\<lambda>x. x \<in> set threescale_steps) (calls s) =
        filter (\<lambda>x. \<not> guarded e x) before @ [c]"
      by simp
  qed
  have td: "\<forall>c \<in> set teardown_steps.
            c \<in> set (calls (snd (finalFunc_threescale e (start cfg)))) \<and> halts (reported e c) \<longrightarrow>
            fst (finalFunc_threescale e (start cfg)) = reported e c \<and>
            last (calls (snd (finalFunc_threescale e (start cfg)))) = c"
    using finalFunc_short_circuit[of e cfg "fst (finalFunc_threescale e (start cfg))"
        "snd (finalFunc_threescale e (start cfg))"]
    by simp
  show ?thesis unfolding a(2,3,4) using 1 st td 4 by (intro conjI) assumption+
qed


text \<open>
  The Grafana pass in which the secrets cannot be reconciled stops at the second of its
  five steps, and the 3scale pass that waits for the blob storage at the seventh of
  its seventeen.
\<close>

theorem Reconcile_short_circuit_witness:
  "fst (Reconcile_grafana secretsFail ''6.5'' installed blank) =
     (PhaseFailed, Some (Error ''forbidden'')) \<and>
   last (calls (fst (snd (Reconcile_grafana secretsFail ''6.5'' installed blank)))) =
     Call_reconcileSecrets \<and>
   Call_reconcileSubscription \<notin>
     set (calls (fst (snd (Reconcile_grafana secretsFail ''6.5'' installed blank)))) \<and>
   Call_reconcileComponents \<notin>
     set (calls (fst (snd (Reconcile_grafana secretsFail ''6.5'' installed blank)))) \<and>
   Call_reconcileHost \<notin>
     set (calls (fst (snd (Reconcile_grafana secretsFail ''6.5'' installed blank)))) \<and>
   calls (fst (snd (Reconcile_grafana secretsFail ''6.5'' installed blank))) =
     [Call_ReconcileFinalizer, Call_ReconcileNamespace_operator, Call_reconcileSecrets] \<and>
   fst (Reconcile_threescale awaitingStorage installed blank) = (PhaseAwaitingComponents, None) \<and>
   last (calls (fst (snd (Reconcile_threescale awaitingStorage installed blank)))) =
     Call_reconcileBlobStorage \<and>
   Call_reconcileComponents \<notin>
     set (calls (fst (snd (Reconcile_threescale awaitingStorage installed blank)))) \<and>
   filter (\<lambda>x. x \<in> set threescale_steps)
       (calls (fst (snd (Reconcile_threescale awaitingStorage installed blank)))) =
     [Call_ReconcileNamespace_operator, Call_ReconcileNamespace_product,
      Call_restoreSystemSecrets, Call_reconcileSubscription, Call_reconcileSMTPCredentials,
      Call_reconcileExternalDatasources, Call_reconcileBlobStorage]"
proof -
  let ?X = "Reconcile_grafana secretsFail ''6.5'' installed blank"
  let ?Y = "Reconcile_threescale awaitingStorage installed blank"
  have px: "Reconcile_grafana secretsFail ''6.5'' installed blank =
        (fst ?X, fst (snd ?X), snd (snd ?X)) \<and> grafana_steps = grafana_steps \<and>
        finalFunc_grafana secretsFail = finalFunc_grafana secretsFail \<and>
        grafana_steps = grafana_steps
      \<or> Reconcile_threescale secretsFail installed blank =
        (fst ?X, fst (snd ?X), snd (snd ?X)) \<and> grafana_steps = threescale_steps \<and>
        finalFunc_grafana secretsFail = finalFunc_threescale secretsFail \<and>
        grafana_steps = threescale_calls secretsFail"
    by simp
  have py: "Reconcile_grafana awaitingStorage ''6.5'' installed blank =
        (fst ?Y, fst (snd ?Y), snd (snd ?Y)) \<and> threescale_steps = grafana_steps \<and>
        finalFunc_threescale awaitingStorage = finalFunc_grafana awaitingStorage \<and>
        threescale_calls awaitingStorage = grafana_steps
      \<or> Reconcile_threescale awaitingStorage installed blank =
        (fst ?Y, fst (snd ?Y), snd (snd ?Y)) \<and> threescale_steps = threescale_steps \<and>
        finalFunc_threescale awaitingStorage = finalFunc_threescale awaitingStorage \<and>
        threescale_calls awaitingStorage = threescale_calls awaitingStorage"
    by simp
  have sx: "grafana_steps = [Call_ReconcileNamespace_operator] @ Call_reconcileSecrets #
      [Call_reconcileSubscription, Call_reconcileComponents, Call_reconcileHost]"
    by (simp add: grafana_steps_def)
  have sy: "threescale_steps =
      [Call_ReconcileNamespace_operator, Call_ReconcileNamespace_product,
       Call_restoreSystemSecrets, Call_reconcileSubscription, Call_reconcileSMTPCredentials,
       Call_reconcileExternalDatasources] @ Call_reconcileBlobStorage #
      [Call_reconcileComponents, Call_reconcileRHSSOIntegration, Call_reconcileBlackboxTargets,
       Call_reconcileOpenshiftUsers, Call_ReconcileOauthClient, Call_reconcileServiceDiscovery,
       Call_backupSystemSecrets, Call_reconcileRouteEditRole, Call_ReconcileAlerts,
       Call_reconcileConsoleLink]"
    by (simp add: threescale_steps_def)
  have ex: "calls (fst (snd ?X)) =
      [Call_ReconcileFinalizer, Call_ReconcileNamespace_operator, Call_reconcileSecrets]"
    by (simp add: Reconcile_grafana_def secretsFail_def quiet_def ReconcileFinalizer_def start_def
        call_def Let_def halts_def)
  have ey: "Call_reconcileBlobStorage \<in> set (calls (fst (snd ?Y)))"
    by (simp add: Reconcile_threescale_def awaitingStorage_def quiet_def ReconcileFinalizer_def
        start_def call_def Let_def halts_def)
  have hx: "halts (returns secretsFail Call_reconcileSecrets)"
    "returns secretsFail Call_reconcileSecrets = (PhaseFailed, Some (Error ''forbidden''))"
    by (simp_all add: secretsFail_def quiet_def)
  have hy: "halts (returns awaitingStorage Call_reconcileBlobStorage)"
    "returns awaitingStorage Call_reconcileBlobStorage = (PhaseAwaitingComponents, None)"
    by (simp_all add: awaitingStorage_def quiet_def halts_def)
  have g: "\<not> guarded awaitingStorage x" for x
    by (simp add: guarded_def awaitingStorage_def quiet_def)
  from Reconcile_short_circuit[OF px, THEN conjunct2, THEN conjunct1, rule_format,
      of "[Call_ReconcileNamespace_operator]" Call_reconcileSecrets
         "[Call_reconcileSubscription, Call_reconcileComponents, Call_reconcileHost]"]
    sx ex hx
  have 1: "fst ?X = (PhaseFailed, Some (Error ''forbidden'')) \<and>
      last (calls (fst (snd ?X))) = Call_reconcileSecrets \<and>
      Call_reconcileSubscription \<notin> set (calls (fst (snd ?X))) \<and>
      Call_reconcileComponents \<notin> set (calls (fst (snd ?X))) \<and>
      Call_reconcileHost \<notin> set (calls (fst (snd ?X)))"
    by simp
  from Reconcile_short_circuit[OF py, THEN conjunct2, THEN conjunct1, rule_format,
      of "[Call_ReconcileNamespace_operator, Call_ReconcileNamespace_product,
           Call_restoreSystemSecrets, Call_reconcileSubscription, Call_reconcileSMTPCredentials,
           Call_reconcileExternalDatasources]" Call_reconcileBlobStorage
         "[Call_reconcileComponents, Call_reconcileRHSSOIntegration,
           Call_reconcileBlackboxTargets, Call_reconcileOpenshiftUsers,
           Call_ReconcileOauthClient, Call_reconcileServiceDiscovery, Call_backupSystemSecrets,
           Call_reconcileRouteEditRole, Call_ReconcileAlerts, Call_reconcileConsoleLink]"]
    sy ey hy
  have 2: "fst ?Y = (PhaseAwaitingComponents, None) \<and>
      last (calls (fst (snd ?Y))) = Call_reconcileBlobStorage \<and>
      Call_reconcileComponents \<notin> set (calls (fst (snd ?Y))) \<and>
      filter (\<lambda>x. x \<in> set threescale_steps) (calls (fst (snd ?Y))) =
        [Call_ReconcileNamespace_operator, Call_ReconcileNamespace_product,
         Call_restoreSystemSecrets, Call_reconcileSubscription, Call_reconcileSMTPCredentials,
         Call_reconcileExternalDatasources, Call_reconcileBlobStorage]"
    by (simp add: g)
  from 1 2 ex show ?thesis by simp
qed

text \<open>
  Claim C3. If every step of a pass returns Completed with a nil error, \<^verbatim>\<open>Reconcile\<close>
  returns (Completed, nil). This holds for Grafana. The 3scale \<^verbatim>\<open>Reconcile\<close> makes three
  calls between its steps that return no phase: when every step has returned Completed
  and the list of routes labelled for the master portal is empty, it returns
  (Failed, nil).
\<close>

theorem all_steps_completed_counterexample:
  "returns noMasterRoute = (\<lambda>c. (PhaseCompleted, None)) \<and>
   fst (ReconcileFinalizer noMasterRoute (finalFunc_threescale noMasterRoute) (start installed)) =
     (PhaseCompleted, None) \<and>
   fst (Reconcile_threescale noMasterRoute installed blank) = (PhaseFailed, None)"
  by (simp add: Reconcile_threescale_def noMasterRoute_def quiet_def ReconcileFinalizer_def
      start_def call_def Let_def halts_def getThreescaleRoute_def)

text \<open>
  Claim C3 as amended: if \<^verbatim>\<open>ReconcileFinalizer\<close> and every executed step return Completed
  with a nil error, and for 3scale the copy of the pull secret returns no error, the
  OAuth client secret is found and the lookup of the master route yields a route, then
  \<^verbatim>\<open>Reconcile\<close> returns (Completed, nil).
\<close>

theorem all_steps_completed:
  assumes pass:
    "Reconcile_grafana e V cfg product = (r, s, p') \<and> steps = grafana_steps \<and>
       finalFunc = finalFunc_grafana e
     \<or> Reconcile_threescale e cfg product = (r, s, p') \<and> steps = threescale_steps \<and>
       finalFunc = finalFunc_threescale e \<and>
       errorOf e Call_CopyPullSecretToNameSpace = None \<and>
       oauthClientSecret e = Inr clientSecret \<and>
       getThreescaleRoute (labelsParse e) (listRoutes e) None = (Some route, None)"
    and fin: "fst (ReconcileFinalizer e finalFunc (start cfg)) = (PhaseCompleted, None)"
    and all: "\<forall>c \<in> set steps. c \<in> set (calls s) \<longrightarrow> returns e c = (PhaseCompleted, None)"
  shows "r = (PhaseCompleted, None)"
  using pass
proof (elim disjE conjE)
  assume a: "Reconcile_grafana e V cfg product = (r, s, p')" "steps = grafana_steps"
    "finalFunc = finalFunc_grafana e"
  obtain r0 s0 where f: "ReconcileFinalizer e (finalFunc_grafana e) (start cfg) = (r0, s0)"
    by (cases "ReconcileFinalizer e (finalFunc_grafana e) (start cfg)")
  note O = grafana_outcome[OF a(1) f]
  have r0: "\<not> halts r0" using fin f a(3) by simp
  have "\<not> halts r"
  proof
    assume "halts r"
    with O(4) r0 obtain c where c: "c \<in> set grafana_steps" "c \<in> set (calls s)" "r = reported e c"
      by blast
    then have "r = (PhaseCompleted, None)" using all a(2) by (simp add: reported_step)
    with \<open>halts r\<close> show False by simp
  qed
  then show ?thesis by (simp add: not_halts_iff)
next
  assume a: "Reconcile_threescale e cfg product = (r, s, p')" "steps = threescale_steps"
    "finalFunc = finalFunc_threescale e"
    and h: "errorOf e Call_CopyPullSecretToNameSpace = None"
      "oauthClientSecret e = Inr clientSecret"
      "getThreescaleRoute (labelsParse e) (listRoutes e) None = (Some route, None)"
  obtain r0 s0 where f: "ReconcileFinalizer e (finalFunc_threescale e) (start cfg) = (r0, s0)"
    by (cases "ReconcileFinalizer e (finalFunc_threescale e) (start cfg)")
  note O = threescale_outcome[OF a(1) f]
  have r0: "\<not> halts r0" using fin f a(3) by simp
  have "\<not> halts r"
  proof
    assume "halts r"
    with O(4) r0 obtain c where c: "c \<in> set (threescale_calls e)" "c \<in> set (calls s)"
      "r = reported e c"
      by blast
    from threescale_calls_kinds[OF c(1)] have "reported e c = (PhaseCompleted, None)"
    proof (elim disjE)
      assume "c \<in> set threescale_steps"
      then show ?thesis using all a(2) c(2) by (simp add: reported_step)
    qed (simp_all add: reported_def h)
    with c(3) \<open>halts r\<close> show False by simp
  qed
  then show ?thesis by (simp add: not_halts_iff)
qed



text \<open>The 3scale pass in which every call succeeds returns (Completed, nil).\<close>

theorem all_steps_completed_witness:
  "fst (Reconcile_threescale quiet installed blank) = (PhaseCompleted, None)"
proof -
  let ?X = "Reconcile_threescale quiet installed blank"
  have p: "Reconcile_threescale quiet installed blank = (fst ?X, fst (snd ?X), snd (snd ?X)) \<and>
      threescale_steps = threescale_steps \<and>
      finalFunc_threescale quiet = finalFunc_threescale quiet \<and>
      errorOf quiet Call_CopyPullSecretToNameSpace = None \<and>
      oauthClientSecret quiet = Inr ''secret'' \<and>
      getThreescaleRoute (labelsParse quiet) (listRoutes quiet) None =
        (Some \<lparr>SpecHost = ''master.apps.example.com''\<rparr>, None)"
    by (simp add: quiet_def getThreescaleRoute_def)
  have f: "fst (ReconcileFinalizer quiet (finalFunc_threescale quiet) (start installed)) =
      (PhaseCompleted, None)"
    by (simp add: quiet_def ReconcileFinalizer_def)
  have a: "\<forall>c \<in> set threescale_steps. c \<in> set (calls (fst (snd ?X))) \<longrightarrow>
      returns quiet c = (PhaseCompleted, None)"
    by (simp add: quiet_def)
  from all_steps_completed[OF disjI2, OF p f a] show ?thesis .
qed

text \<open>
  Claim C4. \<^verbatim>\<open>Reconcile\<close> writes the Host, Version and OperatorVersion of the product status
  only on a pass in which every executed step returned Completed with a nil error, and
  then from the configuration; a pass that stops with an error or with a phase other
  than Completed leaves the product status as it was.
\<close>

theorem product_written_on_completion_only:
  assumes "Reconcile_grafana e V cfg product = (r, s, p') \<or>
           Reconcile_threescale e cfg product = (r, s, p')"
  shows "(halts r \<longrightarrow> p' = product) \<and>
         (\<not> halts r \<longrightarrow>
            r = (PhaseCompleted, None) \<and>
            p' = product\<lparr>Host := GetHost (Config s), Version := GetProductVersion (Config s),
                          OperatorVersion := GetOperatorVersion (Config s)\<rparr> \<and>
            (\<forall>c \<in> set (calls s). c \<in> set grafana_steps \<union> set threescale_steps \<longrightarrow>
               returns e c = (PhaseCompleted, None)))"
  using assms
proof
  assume a: "Reconcile_grafana e V cfg product = (r, s, p')"
  obtain r0 s0 where f: "ReconcileFinalizer e (finalFunc_grafana e) (start cfg) = (r0, s0)"
    by (cases "ReconcileFinalizer e (finalFunc_grafana e) (start cfg)")
  note O = grafana_outcome[OF a f]
  have "\<not> halts r \<longrightarrow> (\<forall>c \<in> set (calls s). c \<in> set grafana_steps \<union> set threescale_steps \<longrightarrow>
               returns e c = (PhaseCompleted, None))"
  proof (intro impI ballI)
    fix c assume n: "\<not> halts r" and m: "c \<in> set (calls s)"
      and k: "c \<in> set grafana_steps \<union> set threescale_steps"
    have "c \<in> set grafana_steps" using step_not_teardown[OF k] m O(5) by blast
    with O(3) n have "\<not> halts (reported e c)" by blast
    then show "returns e c = (PhaseCompleted, None)"
      using k by (simp add: reported_step not_halts_iff)
  qed
  with O(3,6,7) show ?thesis by (simp add: writeProduct_def)
next
  assume a: "Reconcile_threescale e cfg product = (r, s, p')"
  obtain r0 s0 where f: "ReconcileFinalizer e (finalFunc_threescale e) (start cfg) = (r0, s0)"
    by (cases "ReconcileFinalizer e (finalFunc_threescale e) (start cfg)")
  note O = threescale_outcome[OF a f]
  have "\<not> halts r \<longrightarrow> (\<forall>c \<in> set (calls s). c \<in> set grafana_steps \<union> set threescale_steps \<longrightarrow>
               returns e c = (PhaseCompleted, None))"
  proof (intro impI ballI)
    fix c assume n: "\<not> halts r" and m: "c \<in> set (calls s)"
      and k: "c \<in> set grafana_steps \<union> set threescale_steps"
    have "c \<in> set (threescale_calls e)" using step_not_teardown[OF k] m O(5) by blast
    with O(3) n have "\<not> halts (reported e c)" by blast
    then show "returns e c = (PhaseCompleted, None)"
      using k by (simp add: reported_step not_halts_iff)
  qed
  with O(3,6,7) show ?thesis by (simp add: writeProduct_def)
qed

text \<open>
  The Grafana pass that stops at \<^verbatim>\<open>reconcileHost\<close> leaves the status untouched; the 3scale
  pass in which every call succeeds fills it from the configuration.
\<close>

theorem product_written_on_completion_only_witness:
  "snd (snd (Reconcile_grafana noRoute ''6.5'' installed blank)) = blank \<and>
   snd (snd (Reconcile_threescale quiet installed blank)) =
     \<lparr>Host = ''https://3scale-admin.apps.example.com'', Version = ''2.8'',
      OperatorVersion = ''0.5.0''\<rparr>"
proof -
  let ?X = "Reconcile_grafana noRoute ''6.5'' installed blank"
  let ?Y = "Reconcile_threescale quiet installed blank"
  have x: "Reconcile_grafana noRoute ''6.5'' installed blank = (fst ?X, fst (snd ?X), snd (snd ?X))"
    by simp
  have hx: "halts (fst ?X)"
    by (simp add: Reconcile_grafana_def noRoute_def quiet_def ReconcileFinalizer_def start_def
        call_def Let_def halts_def)
  have y: "Reconcile_threescale quiet installed blank = (fst ?Y, fst (snd ?Y), snd (snd ?Y))"
    by simp
  have hy: "\<not> halts (fst ?Y)"
    by (simp add: Reconcile_threescale_def quiet_def ReconcileFinalizer_def
        start_def call_def Let_def halts_def getThreescaleRoute_def)
  have cy: "Config (fst (snd ?Y)) = installed"
    by (simp add: Reconcile_threescale_def quiet_def ReconcileFinalizer_def
        start_def call_def Let_def halts_def getThreescaleRoute_def)
  from product_written_on_completion_only[OF disjI1, OF x] hx
  have 1: "snd (snd ?X) = blank" by simp
  from product_written_on_completion_only[OF disjI2, OF y] hy cy
  have 2: "snd (snd ?Y) = \<lparr>Host = ''https://3scale-admin.apps.example.com'', Version = ''2.8'',
      OperatorVersion = ''0.5.0''\<rparr>"
    by (simp add: installed_def blank_def)
  from 1 2 show ?thesis by simp
qed

text \<open>
  Claim C9. The 3scale \<^verbatim>\<open>Reconcile\<close> can return Failed with a nil error: when every call
  before the lookup of the master route succeeds, the label selector parses and the
  listing succeeds with no route, \<^verbatim>\<open>getThreescaleRoute\<close> returns (nil, nil) and \<^verbatim>\<open>Reconcile\<close>
  returns (Failed, nil).
\<close>

theorem Reconcile_threescale_Failed_without_error:
  assumes fin: "\<not> halts (fst (ReconcileFinalizer e (finalFunc_threescale e) (start cfg)))"
    and before: "\<forall>c \<in> set (takeWhile (\<lambda>c. c \<noteq> Call_getThreescaleRoute) (threescale_calls e)).
                   \<not> halts (reported e c)"
    and parsed: "labelsParse e = None"
    and listed: "listRoutes e = Inr []"
  shows "getThreescaleRoute (labelsParse e) (listRoutes e) None = (None, None) \<and>
         fst (Reconcile_threescale e cfg product) = (PhaseFailed, None)"
proof -
  have g: "getThreescaleRoute (labelsParse e) (listRoutes e) None = (None, None)"
    using parsed listed by (simp add: getThreescaleRoute_def)
  then have rep: "reported e Call_getThreescaleRoute = (PhaseFailed, None)"
    by (simp add: reported_def)
  obtain rest where sp: "threescale_calls e =
      takeWhile (\<lambda>c. c \<noteq> Call_getThreescaleRoute) (threescale_calls e) @
      Call_getThreescaleRoute # rest"
    using threescale_calls_split by blast
  obtain r0 s0 where f: "ReconcileFinalizer e (finalFunc_threescale e) (start cfg) = (r0, s0)"
    by (cases "ReconcileFinalizer e (finalFunc_threescale e) (start cfg)")
  obtain r1 s1 where q: "PhaseSequencer e (threescale_calls e) s0 = (r1, s1)"
    by (cases "PhaseSequencer e (threescale_calls e) s0")
  have "fst (PhaseSequencer e (threescale_calls e) s0) = (PhaseFailed, None)"
    using PhaseSequencer_stops[OF before, of Call_getThreescaleRoute rest s0] rep sp by simp
  with q have "r1 = (PhaseFailed, None)" by simp
  then have "fst (Reconcile_threescale e cfg product) = (PhaseFailed, None)"
    using fin f q by (simp add: Reconcile_threescale_sequencer)
  with g show ?thesis by simp
qed

text \<open>The pass without a master route is such a pass.\<close>

theorem Reconcile_threescale_Failed_without_error_witness:
  "getThreescaleRoute (labelsParse noMasterRoute) (listRoutes noMasterRoute) None = (None, None) \<and>
   fst (Reconcile_threescale noMasterRoute installed blank) = (PhaseFailed, None)"
proof -
  have 1: "\<not> halts (fst (ReconcileFinalizer noMasterRoute (finalFunc_threescale noMasterRoute)
      (start installed)))"
    by (simp add: noMasterRoute_def quiet_def ReconcileFinalizer_def)
  have 2: "\<forall>c \<in> set (takeWhile (\<lambda>c. c \<noteq> Call_getThreescaleRoute) (threescale_calls noMasterRoute)).
      \<not> halts (reported noMasterRoute c)"
    by (simp add: threescale_calls_def noMasterRoute_def quiet_def reported_def)
  have 3: "labelsParse noMasterRoute = None" by (simp add: noMasterRoute_def quiet_def)
  have 4: "listRoutes noMasterRoute = Inr []" by (simp add: noMasterRoute_def quiet_def)
  from Reconcile_threescale_Failed_without_error[OF 1 2 3 4] show ?thesis .
qed




section \<open>Properties of the steps\<close>

subsection \<open>Cloud resources and the configuration store\<close>

text \<open>
  Claim C6. For every pass in which the custom resource for the blob storage, the
  backend redis or the system redis reports a phase other than complete while its
  reconcile request succeeded, the step returns AwaitingComponents with a nil error.
  As stated this fails for the redis instances: \<^verbatim>\<open>reconcileExternalDatasources\<close> makes all
  three provisioning requests and reconciles the alerts before it looks at the phase
  of the backend redis, so a backend redis that is still being provisioned does not
  keep the step from failing when the request for the system redis fails.
\<close>

theorem awaiting_components_counterexample:
  "ReconcileRedis_backend systemRedisFails = Inr provisioning \<and>
   Status_Phase provisioning \<noteq> PhaseComplete \<and>
   reconcileExternalDatasources systemRedisFails =
     (PhaseFailed,
      Some (Wrapped ''failed to reconcile system redis request: '' (Error ''connection refused'')))"
  by (simp add: systemRedisFails_def provisioning_def reconcileExternalDatasources_def)

text \<open>
  Claim C6 as amended: \<^verbatim>\<open>reconcileBlobStorage\<close> returns AwaitingComponents with a nil error
  whenever the request succeeded and the phase is not complete;
  \<^verbatim>\<open>reconcileExternalDatasources\<close> returns AwaitingComponents with a nil error for a backend
  redis that is not complete when the three provisioning requests succeeded, the alerts
  of the backend redis were reconciled with phase Completed and the CPU usage alert was
  created; and for a system redis that is not complete when in addition the backend
  redis is complete, its credential secret was read, its connection secret was written
  and the alerts of the system redis were reconciled with phase Completed.
\<close>

theorem awaiting_components:
  "(reconciled = Inr blobStorage \<and> Status_Phase blobStorage \<noteq> PhaseComplete \<longrightarrow>
      reconcileBlobStorage reconciled = (PhaseAwaitingComponents, None)) \<and>
   (ReconcileRedis_backend d = Inr backendRedis \<and> Status_Phase backendRedis \<noteq> PhaseComplete \<and>
    ReconcileRedis_system d = Inr systemRedis \<and> ReconcilePostgres d = Inr postgres \<and>
    ReconcileRedisAlerts_backend d = (PhaseCompleted, None) \<and>
    CreateRedisCpuUsageAlerts d = None \<longrightarrow>
      reconcileExternalDatasources d = (PhaseAwaitingComponents, None)) \<and>
   (ReconcileRedis_system d = Inr systemRedis \<and> Status_Phase systemRedis \<noteq> PhaseComplete \<and>
    ReconcileRedis_backend d = Inr backendRedis \<and> Status_Phase backendRedis = PhaseComplete \<and>
    ReconcilePostgres d = Inr postgres \<and>
    ReconcileRedisAlerts_backend d = (PhaseCompleted, None) \<and>
    CreateRedisCpuUsageAlerts d = None \<and>
    Get_backendCredSec d = Inr credSec \<and>
    CreateOrUpdate_backendRedisSecret d = None \<and>
    ReconcileRedisAlerts_system d = (PhaseCompleted, None) \<longrightarrow>
      reconcileExternalDatasources d = (PhaseAwaitingComponents, None))"
  by (simp add: reconcileBlobStorage_def reconcileExternalDatasources_def)

text \<open>The three cases on the answers defined above.\<close>

theorem awaiting_components_witness:
  "reconcileBlobStorage (Inr provisioning) = (PhaseAwaitingComponents, None) \<and>
   reconcileExternalDatasources backendProvisioning = (PhaseAwaitingComponents, None) \<and>
   reconcileExternalDatasources systemProvisioning = (PhaseAwaitingComponents, None)"
proof -
  have 1: "Inr provisioning = Inr provisioning \<and> Status_Phase provisioning \<noteq> PhaseComplete"
    by (simp add: provisioning_def)
  have 2: "ReconcileRedis_backend backendProvisioning = Inr provisioning \<and>
      Status_Phase provisioning \<noteq> PhaseComplete \<and>
      ReconcileRedis_system backendProvisioning = Inr provisioning \<and>
      ReconcilePostgres backendProvisioning = Inr provisioning \<and>
      ReconcileRedisAlerts_backend backendProvisioning = (PhaseCompleted, None) \<and>
      CreateRedisCpuUsageAlerts backendProvisioning = None"
    by (simp add: backendProvisioning_def systemRedisFails_def provisioning_def)
  have 3: "ReconcileRedis_system systemProvisioning = Inr provisioning \<and>
      Status_Phase provisioning \<noteq> PhaseComplete \<and>
      ReconcileRedis_backend systemProvisioning = Inr ready \<and>
      Status_Phase ready = PhaseComplete \<and>
      ReconcilePostgres systemProvisioning = Inr provisioning \<and>
      ReconcileRedisAlerts_backend systemProvisioning = (PhaseCompleted, None) \<and>
      CreateRedisCpuUsageAlerts systemProvisioning = None \<and>
      Get_backendCredSec systemProvisioning = Inr emptySecret \<and>
      CreateOrUpdate_backendRedisSecret systemProvisioning = None \<and>
      ReconcileRedisAlerts_system systemProvisioning = (PhaseCompleted, None)"
    by (simp add: systemProvisioning_def backendProvisioning_def systemRedisFails_def
        provisioning_def ready_def)
  from awaiting_components[of "Inr provisioning" provisioning backendProvisioning provisioning
      provisioning provisioning emptySecret] 1 2
  have a: "reconcileBlobStorage (Inr provisioning) = (PhaseAwaitingComponents, None) \<and>
      reconcileExternalDatasources backendProvisioning = (PhaseAwaitingComponents, None)"
    by simp
  from awaiting_components[of "Inr provisioning" provisioning systemProvisioning ready
      provisioning provisioning emptySecret] 3
  have "reconcileExternalDatasources systemProvisioning = (PhaseAwaitingComponents, None)"
    by simp
  with a show ?thesis by simp
qed

text \<open>
  Claim C5. Recomputed values (product and operator version, discovered host) are
  written back to the configuration store only when they differ from the recorded
  value. The versions are; the host is not compared: \<^verbatim>\<open>reconcileHost\<close> of the Grafana
  reconciler stores the configuration although the host it found is the recorded one.
\<close>

theorem config_written_when_changed_counterexample:
  "GetHost installed = ''https://'' @ SpecHost \<lparr>SpecHost = ''3scale-admin.apps.example.com''\<rparr> \<and>
   written (snd (reconcileHost (Inr \<lparr>SpecHost = ''3scale-admin.apps.example.com''\<rparr>) None
      (start installed))) = [installed]"
  by (simp add: reconcileHost_def WriteConfig_def start_def installed_def)

text \<open>
  Claim C5 as amended: the product version and the operator version are written back
  only when they differ from the recorded value. Beyond what its callees write, a pass
  of the Grafana \<^verbatim>\<open>Reconcile\<close> writes the configuration only when it has not stopped early
  and the recorded product version is not the expected one, and then once, with the
  expected version; the 3scale \<^verbatim>\<open>Reconcile\<close> writes nothing beyond what its callees write;
  \<^verbatim>\<open>reconcileServiceDiscovery\<close> writes the configuration once for a product version and once
  for an operator version that is not the expected one, and not otherwise. The host is
  not compared: \<^verbatim>\<open>reconcileHost\<close> writes the configuration with the discovered host
  whenever it has read the route, and does not write when it has not.
\<close>

theorem config_written_when_changed:
  "(Reconcile_grafana e VersionGrafana cfg product = (r, s, p') \<longrightarrow>
      written s =
        written (replay e (calls s) cfg) @
        (if \<not> halts r \<and> GetProductVersion (Config (replay e (calls s) cfg)) \<noteq> VersionGrafana
         then [(Config (replay e (calls s) cfg))\<lparr>GetProductVersion := VersionGrafana\<rparr>]
         else [])) \<and>
   (Reconcile_threescale e cfg product = (r, s, p') \<longrightarrow> s = replay e (calls s) cfg) \<and>
   written (fst (snd (reconcileServiceDiscovery Version3Scale OperatorVersion3Scale
      createdOrUpdated instantiate s0))) =
     written s0 @
     (if GetProductVersion (Config s0) \<noteq> Version3Scale
      then [(Config s0)\<lparr>GetProductVersion := Version3Scale\<rparr>] else []) @
     (if GetOperatorVersion (Config s0) \<noteq> OperatorVersion3Scale
      then [(Config s0)\<lparr>GetProductVersion := Version3Scale,
                        GetOperatorVersion := OperatorVersion3Scale\<rparr>] else []) \<and>
   written (snd (reconcileHost (Inr grafanaRoute) stored s0)) =
     written s0 @ [(Config s0)\<lparr>GetHost := ''https://'' @ SpecHost grafanaRoute\<rparr>] \<and>
   written (snd (reconcileHost (Inl err) stored s0)) = written s0"
proof (intro conjI impI)
  assume a: "Reconcile_grafana e VersionGrafana cfg product = (r, s, p')"
  from grafana_pass[OF a] obtain r0 s0 s1 where
    f: "ReconcileFinalizer e (finalFunc_grafana e) (start cfg) = (r0, s0)" and
    o: "(if halts r0 then (r0, s0) else PhaseSequencer e grafana_steps s0) = (r, s1)" and
    c: "calls s = calls s1" and
    h: "halts r \<longrightarrow> s = s1 \<and> p' = product" and
    n: "\<not> halts r \<longrightarrow> s = reconcileProductVersion VersionGrafana s1 \<and>
          p' = writeProduct s product"
    by blast
  have "s1 = replay e (calls s1) cfg" by (rule pass_replay[OF f _ o]) simp
  with c have 1: "replay e (calls s) cfg = s1" by simp
  show "written s =
        written (replay e (calls s) cfg) @
        (if \<not> halts r \<and> GetProductVersion (Config (replay e (calls s) cfg)) \<noteq> VersionGrafana
         then [(Config (replay e (calls s) cfg))\<lparr>GetProductVersion := VersionGrafana\<rparr>]
         else [])"
    unfolding 1 using h n
    by (cases "halts r") (simp_all add: reconcileProductVersion_def WriteConfig_def)
next
  assume a: "Reconcile_threescale e cfg product = (r, s, p')"
  from threescale_pass[OF a] obtain r0 s0 where
    f: "ReconcileFinalizer e (finalFunc_threescale e) (start cfg) = (r0, s0)" and
    o: "(if halts r0 then (r0, s0) else PhaseSequencer e (threescale_calls e) s0) = (r, s)"
    by blast
  show "s = replay e (calls s) cfg" by (rule pass_replay[OF f _ o]) simp
next
  show "written (fst (snd (reconcileServiceDiscovery Version3Scale OperatorVersion3Scale
      createdOrUpdated instantiate s0))) =
     written s0 @
     (if GetProductVersion (Config s0) \<noteq> Version3Scale
      then [(Config s0)\<lparr>GetProductVersion := Version3Scale\<rparr>] else []) @
     (if GetOperatorVersion (Config s0) \<noteq> OperatorVersion3Scale
      then [(Config s0)\<lparr>GetProductVersion := Version3Scale,
                        GetOperatorVersion := OperatorVersion3Scale\<rparr>] else [])"
    by (auto simp: reconcileProductVersion_def reconcileOperatorVersion_def
      reconcileServiceDiscovery_def WriteConfig_def RolloutDeployment_def
      Let_def split: option.splits prod.splits)
next
  show "written (snd (reconcileHost (Inr grafanaRoute) stored s0)) =
     written s0 @ [(Config s0)\<lparr>GetHost := ''https://'' @ SpecHost grafanaRoute\<rparr>]"
    by (auto simp: reconcileHost_def WriteConfig_def Let_def split: option.splits)
next
  show "written (snd (reconcileHost (Inl err) stored s0)) = written s0"
    by (simp add: reconcileHost_def)
qed

text \<open>
  Three Grafana passes from the configuration with product version 2.8. When 2.8 is
  expected, the only write is that of the host; when 6.5 is expected, the version is
  written after the host; on the pass that stops before the host is found, nothing is
  written although the version differs.
\<close>

theorem config_written_when_changed_witness:
  "written (fst (snd (Reconcile_grafana routed ''2.8'' installed blank))) =
     [installed\<lparr>GetHost := ''https://grafana.apps.example.com''\<rparr>] \<and>
   written (fst (snd (Reconcile_grafana routed ''6.5'' installed blank))) =
     [installed\<lparr>GetHost := ''https://grafana.apps.example.com''\<rparr>,
      installed\<lparr>GetHost := ''https://grafana.apps.example.com'', GetProductVersion := ''6.5''\<rparr>] \<and>
   written (fst (snd (Reconcile_grafana noRoute ''6.5'' installed blank))) = []"
proof -
  let ?X = "Reconcile_grafana routed ''2.8'' installed blank"
  let ?Y = "Reconcile_grafana routed ''6.5'' installed blank"
  let ?Z = "Reconcile_grafana noRoute ''6.5'' installed blank"
  let ?all = "[Call_ReconcileFinalizer, Call_ReconcileNamespace_operator, Call_reconcileSecrets,
       Call_reconcileSubscription, Call_reconcileComponents, Call_reconcileHost]"
  have x: "?X = (fst ?X, fst (snd ?X), snd (snd ?X))" by simp
  have y: "?Y = (fst ?Y, fst (snd ?Y), snd (snd ?Y))" by simp
  have z: "?Z = (fst ?Z, fst (snd ?Z), snd (snd ?Z))" by simp
  have ex: "calls (fst (snd ?X)) = ?all" "\<not> halts (fst ?X)"
    by (simp_all add: Reconcile_grafana_def routed_def quiet_def ReconcileFinalizer_def start_def
        call_def Let_def halts_def reconcileProductVersion_def WriteConfig_def)
  have ey: "calls (fst (snd ?Y)) = ?all" "\<not> halts (fst ?Y)"
    by (simp_all add: Reconcile_grafana_def routed_def quiet_def ReconcileFinalizer_def start_def
        call_def Let_def halts_def reconcileProductVersion_def WriteConfig_def)
  have ez: "calls (fst (snd ?Z)) = ?all" "halts (fst ?Z)"
    by (simp_all add: Reconcile_grafana_def noRoute_def quiet_def ReconcileFinalizer_def start_def
        call_def Let_def halts_def)
  have r1: "replay routed ?all installed =
      \<lparr>Config = installed\<lparr>GetHost := ''https://grafana.apps.example.com''\<rparr>,
       written = [installed\<lparr>GetHost := ''https://grafana.apps.example.com''\<rparr>],
       calls = ?all\<rparr>"
    by (simp add: replay_def routed_def quiet_def start_def call_def)
  have r2: "replay noRoute ?all installed = \<lparr>Config = installed, written = [], calls = ?all\<rparr>"
    by (simp add: replay_def noRoute_def quiet_def start_def call_def)
  from config_written_when_changed[of routed "''2.8''" installed blank "fst ?X" "fst (snd ?X)"
      "snd (snd ?X)"] x ex r1
  have 1: "written (fst (snd ?X)) = [installed\<lparr>GetHost := ''https://grafana.apps.example.com''\<rparr>]"
    by (simp add: installed_def)
  from config_written_when_changed[of routed "''6.5''" installed blank "fst ?Y" "fst (snd ?Y)"
      "snd (snd ?Y)"] y ey r1
  have 2: "written (fst (snd ?Y)) =
     [installed\<lparr>GetHost := ''https://grafana.apps.example.com''\<rparr>,
      installed\<lparr>GetHost := ''https://grafana.apps.example.com'', GetProductVersion := ''6.5''\<rparr>]"
    by (simp add: installed_def)
  from config_written_when_changed[of noRoute "''6.5''" installed blank "fst ?Z" "fst (snd ?Z)"
      "snd (snd ?Z)"] z ez r2
  have 3: "written (fst (snd ?Z)) = []"
    by simp
  from 1 2 3 show ?thesis by simp
qed

subsection \<open>The synchronisation of users\<close>

lemma addUsers_events:
  "set (snd (addUsers u added events)) \<subseteq> set events \<union> {e. \<exists>n m. e = AddUser n m}"
proof (induction added arbitrary: events)
  case Nil
  then show ?case by simp
next
  case (Cons kcUser added)
  show ?case
    using Cons.IH[of "events @ [AddUser (toLower u (UserName kcUser)) (toLower u (Email kcUser))]"]
    by (auto simp: Let_def split: sum.splits)
qed

lemma deleteUsers_events:
  "DeleteUser i \<in> set (snd (deleteUsers u systemAdminUsername deleted events)) \<Longrightarrow>
     DeleteUser i \<in> set events \<or>
     (\<exists>tsUser \<in> set deleted. Id (UserDetails tsUser) = i \<and>
        Username (UserDetails tsUser) \<noteq> systemAdminUsername)"
proof (induction deleted arbitrary: events)
  case Nil
  then show ?case by simp
next
  case (Cons tsUser deleted)
  show ?case
  proof (cases "Username (UserDetails tsUser) \<noteq> systemAdminUsername")
    case False
    with Cons.prems have "DeleteUser i \<in> set (snd (deleteUsers u systemAdminUsername deleted events))"
      by simp
    from Cons.IH[OF this] show ?thesis by auto
  next
    case True
    let ?ev = "events @ [DeleteUser (Id (UserDetails tsUser))]"
    have "DeleteUser i \<in> set ?ev \<or>
        DeleteUser i \<in> set (snd (deleteUsers u systemAdminUsername deleted ?ev))"
      using Cons.prems True by (auto simp: Let_def split: sum.splits if_splits)
    then show ?thesis
    proof
      assume "DeleteUser i \<in> set ?ev"
      with True show ?thesis by auto
    next
      assume "DeleteUser i \<in> set (snd (deleteUsers u systemAdminUsername deleted ?ev))"
      from Cons.IH[OF this] True show ?thesis by auto
    qed
  qed
qed

lemma syncOpenshiftAdminMembership_events:
  "SetUserAsAdmin i \<in>
     set (snd (syncOpenshiftAdminMembership u openshiftAdminGroup newTsUsers systemAdminUsername
       events)) \<Longrightarrow>
     SetUserAsAdmin i \<in> set events \<or>
     (\<exists>tsUser \<in> set newTsUsers. Id (UserDetails tsUser) = i \<and>
        Username (UserDetails tsUser) \<noteq> systemAdminUsername)"
proof (induction newTsUsers arbitrary: events)
  case Nil
  then show ?case by simp
next
  case (Cons tsUser newTsUsers)
  let ?ev = "events @ [SetUserAsAdmin (Id (UserDetails tsUser))]"
  show ?case
  proof (cases "Username (UserDetails tsUser) = systemAdminUsername")
    case True
    with Cons.prems have "SetUserAsAdmin i \<in> set (snd (syncOpenshiftAdminMembership u
        openshiftAdminGroup newTsUsers systemAdminUsername events))"
      by simp
    from Cons.IH[OF this] show ?thesis by auto
  next
    case False
    have "SetUserAsAdmin i \<in> set ?ev \<or>
        SetUserAsAdmin i \<in> set (snd (syncOpenshiftAdminMembership u openshiftAdminGroup
          newTsUsers systemAdminUsername ?ev)) \<or>
        SetUserAsAdmin i \<in> set (snd (syncOpenshiftAdminMembership u openshiftAdminGroup
          newTsUsers systemAdminUsername events))"
      using Cons.prems False by (auto simp: Let_def split: sum.splits if_splits)
    then show ?thesis
    proof (elim disjE)
      assume "SetUserAsAdmin i \<in> set ?ev"
      with False show ?thesis by auto
    next
      assume "SetUserAsAdmin i \<in> set (snd (syncOpenshiftAdminMembership u openshiftAdminGroup
          newTsUsers systemAdminUsername ?ev))"
      from Cons.IH[OF this] False show ?thesis by auto
    next
      assume "SetUserAsAdmin i \<in> set (snd (syncOpenshiftAdminMembership u openshiftAdminGroup
          newTsUsers systemAdminUsername events))"
      from Cons.IH[OF this] show ?thesis by auto
    qed
  qed
qed

lemma getUserDiff_deleted_subset:
  "getUserDiff EqualFold kcu tsUsers = (added, deleted) \<Longrightarrow> set deleted \<subseteq> set tsUsers"
  by (auto simp: getUserDiff_def getUserDiff_deleted_filter)

lemma syncOpenshiftAdminMembership_keeps:
  "DeleteUser i \<in>
     set (snd (syncOpenshiftAdminMembership u openshiftAdminGroup newTsUsers systemAdminUsername
       events)) \<Longrightarrow> DeleteUser i \<in> set events"
proof (induction newTsUsers arbitrary: events)
  case Nil
  then show ?case by simp
next
  case (Cons tsUser newTsUsers)
  let ?ev = "events @ [SetUserAsAdmin (Id (UserDetails tsUser))]"
  have "DeleteUser i \<in> set ?ev \<or>
      DeleteUser i \<in> set (snd (syncOpenshiftAdminMembership u openshiftAdminGroup
        newTsUsers systemAdminUsername ?ev)) \<or>
      DeleteUser i \<in> set (snd (syncOpenshiftAdminMembership u openshiftAdminGroup
        newTsUsers systemAdminUsername events))"
    using Cons.prems by (auto simp: Let_def split: sum.splits if_splits)
  then show ?case using Cons.IH[of ?ev] Cons.IH[of events] by auto
qed

lemma reconcileOpenshiftUsers_deletes:
  assumes g: "GetUsers u [] = Inr tsUsers"
    and a: "GetAdminNameAndPassFromSecret (Get_systemSeed_admin u) = Inr (systemAdminUsername, email)"
    and d: "DeleteUser i \<in> set (snd (reconcileOpenshiftUsers u))"
  shows "\<exists>tsUser \<in> set tsUsers. Id (UserDetails tsUser) = i \<and>
           Username (UserDetails tsUser) \<noteq> systemAdminUsername"
proof -
  obtain kcu where k: "GetKeycloakUsers u = Inr kcu"
    using d g a
    by (cases "GetKeycloakUsers u")
       (auto simp: reconcileOpenshiftUsers_def split: option.splits sum.splits)
  obtain added deleted where ud: "getUserDiff (equalFold u) kcu tsUsers = (added, deleted)"
    by (cases "getUserDiff (equalFold u) kcu tsUsers")
  obtain ra ea where ad: "addUsers u added [] = (ra, ea)" by (cases "addUsers u added []")
  obtain rd ed where de: "deleteUsers u systemAdminUsername deleted ea = (rd, ed)"
    by (cases "deleteUsers u systemAdminUsername deleted ea")
  have na: "DeleteUser i \<notin> set ea" using addUsers_events[of u added "[]"] ad by auto
  have keeps: "\<And>g s r evs. syncOpenshiftAdminMembership u g s systemAdminUsername ed = (r, evs) \<Longrightarrow>
      DeleteUser i \<in> set evs \<Longrightarrow> DeleteUser i \<in> set ed"
    using syncOpenshiftAdminMembership_keeps by (metis snd_conv)
  have "DeleteUser i \<in> set ed"
    using d g a k ud ad de na
    by (auto simp: reconcileOpenshiftUsers_def split: option.splits sum.splits prod.splits
        if_splits dest: keeps)
  then have "DeleteUser i \<in> set (snd (deleteUsers u systemAdminUsername deleted ea))"
    using de by simp
  from deleteUsers_events[OF this] na getUserDiff_deleted_subset[OF ud] show ?thesis by auto
qed

lemma distinct_ids:
  "distinct (map (\<lambda>t. Id (UserDetails t)) ts) \<Longrightarrow> a \<in> set ts \<Longrightarrow> b \<in> set ts \<Longrightarrow>
     Id (UserDetails a) = Id (UserDetails b) \<Longrightarrow> a = b"
  by (meson distinct_map inj_onD)

lemma reconcileOpenshiftUsers_reads:
  assumes "e \<in> set (snd (reconcileOpenshiftUsers u))"
  shows "\<exists>tsUsers systemAdminUsername email.
           GetUsers u [] = Inr tsUsers \<and>
           GetAdminNameAndPassFromSecret (Get_systemSeed_admin u) =
             Inr (systemAdminUsername, email)"
proof (cases "GetUsers u []")
  case (Inl err)
  with assms show ?thesis
    by (auto simp: reconcileOpenshiftUsers_def split: option.splits sum.splits)
next
  case g: (Inr tsUsers)
  show ?thesis
  proof (cases "GetAdminNameAndPassFromSecret (Get_systemSeed_admin u)")
    case (Inl err)
    with assms show ?thesis
      by (auto simp: reconcileOpenshiftUsers_def split: option.splits sum.splits)
  next
    case (Inr p)
    with g show ?thesis by (cases p) simp
  qed
qed

text \<open>
  Claim C10. User synchronisation never removes or re-roles the system admin of
  3scale. Every call of \<^verbatim>\<open>DeleteUser\<close> that \<^verbatim>\<open>reconcileOpenshiftUsers\<close> makes carries the id of a
  user of the list the 3scale client returned whose user name is not the \<^verbatim>\<open>ADMIN_USER\<close> of
  the secret \<^verbatim>\<open>system-seed\<close>, and every call of \<^verbatim>\<open>SetUserAsAdmin\<close> that
  \<^verbatim>\<open>syncOpenshiftAdminMembership\<close> makes carries the id of a user of its list whose user
  name is not the system admin's. When the ids of the list are distinct, no such call
  carries the id of the user whose user name is the system admin's.
\<close>

theorem system_admin_kept:
  "(DeleteUser i \<in> set (snd (reconcileOpenshiftUsers u)) \<longrightarrow>
      (\<exists>tsUsers systemAdminUsername email tsUser.
         GetUsers u [] = Inr tsUsers \<and>
         GetAdminNameAndPassFromSecret (Get_systemSeed_admin u) =
           Inr (systemAdminUsername, email) \<and>
         tsUser \<in> set tsUsers \<and> Id (UserDetails tsUser) = i \<and>
         Username (UserDetails tsUser) \<noteq> systemAdminUsername)) \<and>
   (GetUsers u [] = Inr tsUsers \<and>
    GetAdminNameAndPassFromSecret (Get_systemSeed_admin u) = Inr (systemAdminUsername, email) \<and>
    distinct (map (\<lambda>t. Id (UserDetails t)) tsUsers) \<and>
    admin \<in> set tsUsers \<and> Username (UserDetails admin) = systemAdminUsername \<longrightarrow>
      DeleteUser (Id (UserDetails admin)) \<notin> set (snd (reconcileOpenshiftUsers u))) \<and>
   (SetUserAsAdmin i \<in>
      set (snd (syncOpenshiftAdminMembership u openshiftAdminGroup newTsUsers
        systemAdminUsername events)) \<and>
    SetUserAsAdmin i \<notin> set events \<longrightarrow>
      (\<exists>tsUser \<in> set newTsUsers. Id (UserDetails tsUser) = i \<and>
         Username (UserDetails tsUser) \<noteq> systemAdminUsername)) \<and>
   (distinct (map (\<lambda>t. Id (UserDetails t)) newTsUsers) \<and>
    admin \<in> set newTsUsers \<and> Username (UserDetails admin) = systemAdminUsername \<and>
    SetUserAsAdmin (Id (UserDetails admin)) \<notin> set events \<longrightarrow>
      SetUserAsAdmin (Id (UserDetails admin)) \<notin>
        set (snd (syncOpenshiftAdminMembership u openshiftAdminGroup newTsUsers
          systemAdminUsername events)))"
proof (intro conjI impI)
  assume d: "DeleteUser i \<in> set (snd (reconcileOpenshiftUsers u))"
  from reconcileOpenshiftUsers_reads[OF d] obtain tsUsers systemAdminUsername email where
    g: "GetUsers u [] = Inr tsUsers" and
    a: "GetAdminNameAndPassFromSecret (Get_systemSeed_admin u) = Inr (systemAdminUsername, email)"
    by blast
  from reconcileOpenshiftUsers_deletes[OF g a d] g a
  show "\<exists>tsUsers systemAdminUsername email tsUser.
         GetUsers u [] = Inr tsUsers \<and>
         GetAdminNameAndPassFromSecret (Get_systemSeed_admin u) =
           Inr (systemAdminUsername, email) \<and>
         tsUser \<in> set tsUsers \<and> Id (UserDetails tsUser) = i \<and>
         Username (UserDetails tsUser) \<noteq> systemAdminUsername"
    by blast
next
  assume h: "GetUsers u [] = Inr tsUsers \<and>
    GetAdminNameAndPassFromSecret (Get_systemSeed_admin u) = Inr (systemAdminUsername, email) \<and>
    distinct (map (\<lambda>t. Id (UserDetails t)) tsUsers) \<and>
    admin \<in> set tsUsers \<and> Username (UserDetails admin) = systemAdminUsername"
  show "DeleteUser (Id (UserDetails admin)) \<notin> set (snd (reconcileOpenshiftUsers u))"
  proof
    assume "DeleteUser (Id (UserDetails admin)) \<in> set (snd (reconcileOpenshiftUsers u))"
    with h reconcileOpenshiftUsers_deletes[of u tsUsers systemAdminUsername email
        "Id (UserDetails admin)"]
    obtain t where t: "t \<in> set tsUsers" "Id (UserDetails t) = Id (UserDetails admin)"
      "Username (UserDetails t) \<noteq> systemAdminUsername"
      by blast
    with h distinct_ids[of tsUsers t admin] show False by simp
  qed
next
  assume "SetUserAsAdmin i \<in>
      set (snd (syncOpenshiftAdminMembership u openshiftAdminGroup newTsUsers
        systemAdminUsername events)) \<and>
    SetUserAsAdmin i \<notin> set events"
  then show "\<exists>tsUser \<in> set newTsUsers. Id (UserDetails tsUser) = i \<and>
         Username (UserDetails tsUser) \<noteq> systemAdminUsername"
    using syncOpenshiftAdminMembership_events by blast
next
  assume h: "distinct (map (\<lambda>t. Id (UserDetails t)) newTsUsers) \<and>
    admin \<in> set newTsUsers \<and> Username (UserDetails admin) = systemAdminUsername \<and>
    SetUserAsAdmin (Id (UserDetails admin)) \<notin> set events"
  show "SetUserAsAdmin (Id (UserDetails admin)) \<notin>
        set (snd (syncOpenshiftAdminMembership u openshiftAdminGroup newTsUsers
          systemAdminUsername events))"
  proof
    assume "SetUserAsAdmin (Id (UserDetails admin)) \<in>
        set (snd (syncOpenshiftAdminMembership u openshiftAdminGroup newTsUsers
          systemAdminUsername events))"
    with h syncOpenshiftAdminMembership_events[of "Id (UserDetails admin)" u openshiftAdminGroup
        newTsUsers systemAdminUsername events]
    obtain t where t: "t \<in> set newTsUsers" "Id (UserDetails t) = Id (UserDetails admin)"
      "Username (UserDetails t) \<noteq> systemAdminUsername"
      by blast
    with h distinct_ids[of newTsUsers t admin] show False by simp
  qed
qed

text \<open>
  On the pass defined above, \<open>alice\<close> is added, \<open>bob\<close> is deleted and \<open>alice\<close> is made an
  admin. No call carries the id of the system admin, although the identity provider
  does not know that account.
\<close>

theorem system_admin_kept_witness:
  "snd (reconcileOpenshiftUsers syncing) =
     [AddUser ''alice'' ''alice@example.com'', DeleteUser 7, SetUserAsAdmin 8] \<and>
   DeleteUser 1 \<notin> set (snd (reconcileOpenshiftUsers syncing)) \<and>
   SetUserAsAdmin 1 \<notin>
     set (snd (syncOpenshiftAdminMembership syncing [''alice''] [adminUser, newUser] ''admin'' []))"
proof -
  have 1: "GetUsers syncing [] = Inr [adminUser, staleUser] \<and>
      GetAdminNameAndPassFromSecret (Get_systemSeed_admin syncing) =
        Inr (''admin'', ''admin@example.com'') \<and>
      distinct (map (\<lambda>t. Id (UserDetails t)) [adminUser, staleUser]) \<and>
      adminUser \<in> set [adminUser, staleUser] \<and> Username (UserDetails adminUser) = ''admin''"
    by (simp add: syncing_def GetAdminNameAndPassFromSecret_def seed_def stringOf_def
        adminUser_def staleUser_def)
  have 2: "distinct (map (\<lambda>t. Id (UserDetails t)) [adminUser, newUser]) \<and>
      adminUser \<in> set [adminUser, newUser] \<and> Username (UserDetails adminUser) = ''admin'' \<and>
      SetUserAsAdmin (Id (UserDetails adminUser)) \<notin> set []"
    by (simp add: adminUser_def newUser_def)
  have 3: "Id (UserDetails adminUser) = 1" by (simp add: adminUser_def)
  have 4: "snd (reconcileOpenshiftUsers syncing) =
     [AddUser ''alice'' ''alice@example.com'', DeleteUser 7, SetUserAsAdmin 8]"
    by (simp add: reconcileOpenshiftUsers_def syncing_def GetAdminToken_def
      GetAdminNameAndPassFromSecret_def seed_def stringOf_def getUserDiff_def adminUser_def
      staleUser_def newUser_def Let_def)
  from system_admin_kept[of 1 syncing "[adminUser, staleUser]" "''admin''" "''admin@example.com''"
      adminUser "[''alice'']" "[adminUser, newUser]" "[]"] 1 2 3 4
  show ?thesis by simp
qed

subsection \<open>The SMTP credentials\<close>




















end
